theory Spec2Isabelle
  imports Main "HOL-Library.AList"
begin

section \<open>Python values, errors and the HTTP transport\<close>

text \<open>
  The connector moves decoded JSON around: \<open>req.json()\<close> yields \<open>None\<close>, a bool, an int,
  a str, a list or a dict. A dict keeps its insertion order, so it is an association list;
  \<open>d[k] = v\<close> on it is \<open>AList.update\<close> (replace in place, or append).
\<close>

datatype pyval =
    PNone
  | PBool bool
  | PInt int
  | PStr string
  | PList "pyval list"
  | PDict "(string \<times> pyval) list"

text \<open>
  The value interpolated into an exception message by \<open>'...%s' % x\<close>: the status code
  (an int) or the raw response content (bytes).
\<close>

datatype fmt_arg = Int_arg int | Bytes_arg string

text \<open>
  Every exception the modelled code can raise. \<open>Exception tmpl a\<close> stands for
  \<open>Exception(tmpl % a)\<close>; \<open>KeyError\<close> is the cookie jar's, \<open>TypeError\<close> is item assignment
  on something that is not a dict, \<open>JSONDecodeError\<close> is \<open>req.json()\<close> on a body that is
  not JSON.
\<close>

datatype error =
    Exception string fmt_arg
  | ValueError string
  | KeyError string
  | TypeError
  | JSONDecodeError

datatype http_verb = GET | POST | PUT | DELETE

record request =
  verb :: http_verb
  url :: string
  json_data :: "pyval option"
  req_headers :: "(string \<times> string option) list"
  verify :: bool

text \<open>
  A response: \<open>json\<close> is the result of \<open>req.json()\<close> (\<open>None\<close> when the body does not
  decode), \<open>set_cookie\<close> the cookies the response stores in the session's jar.
\<close>

record response =
  status_code :: int
  content :: string
  json :: "pyval option"
  set_cookie :: "(string \<times> string) list"

type_synonym 's server = "'s \<Rightarrow> request \<Rightarrow> response \<times> 's"

type_synonym exchange = "request \<times> response"

section \<open>The connector object\<close>

text \<open>
  The fields of \<open>SecurityRatConnector\<close>. \<open>cookies\<close> is \<open>self.session.cookies\<close>. The remote
  service and the record of what went over the wire (newest exchange first) are carried
  along: \<open>remote\<close> and \<open>exchanges\<close> are not fields of the Python object.
\<close>

record 's connector =
  api :: string
  verifyCertificates :: bool
  cached :: bool
  cache :: "string \<rightharpoonup> pyval"
  headers :: "(string \<times> string option) list"
  cookies :: "string \<rightharpoonup> string"
  remote :: 's
  exchanges :: "exchange list"

type_synonym 's outcome = "(error + pyval) \<times> 's connector"

definition init :: "string \<Rightarrow> bool \<Rightarrow> bool \<Rightarrow> 's \<Rightarrow> 's connector" where
  "init apiEndpoint verifyCerts cached' w =
     \<lparr>api = apiEndpoint, verifyCertificates = verifyCerts, cached = cached',
      cache = Map.empty,
      headers = [(''content-type'', Some ''application/json;charset=utf-8''),
                 (''Accept'', Some ''application/json''),
                 (''X-CSRF-TOKEN'', None)],
      cookies = Map.empty, remote = w, exchanges = []\<rparr>"

text \<open>
  One call of \<open>self.session.get/put/delete/post\<close>: the request goes to the service, the
  session keeps the cookies of the response.
\<close>

definition session_request ::
  "'s server \<Rightarrow> http_verb \<Rightarrow> string \<Rightarrow> pyval option \<Rightarrow> (string \<times> string option) list \<Rightarrow>
   bool \<Rightarrow> 's connector \<Rightarrow> response \<times> 's connector" where
  "session_request srv v u j h vc s =
     (let rq = \<lparr>verb = v, url = u, json_data = j, req_headers = h, verify = vc\<rparr>;
          (rsp, w) = srv (remote s) rq
      in (rsp, s\<lparr>cookies := cookies s ++ map_of (set_cookie rsp), remote := w,
                 exchanges := (rq, rsp) # exchanges s\<rparr>))"

text \<open>\<open>req.json()\<close>: the decoded body, or the decoder's exception.\<close>

definition json_of :: "response \<Rightarrow> error + pyval" where
  "json_of req = (case json req of None \<Rightarrow> Inl JSONDecodeError | Some v \<Rightarrow> Inr v)"

section \<open>The dispatcher: put, get, delete, post\<close>

definition put :: "'s server \<Rightarrow> string \<Rightarrow> pyval \<Rightarrow> 's connector \<Rightarrow> 's outcome" where
  "put srv endpoint data s =
     (case cookies s ''CSRF-TOKEN'' of
        None \<Rightarrow> (Inl (KeyError ''CSRF-TOKEN''), s)
      | Some tok \<Rightarrow>
          let s1 = s\<lparr>headers := AList.update ''X-CSRF-TOKEN'' (Some tok) (headers s)\<rparr>;
              (req, s2) = session_request srv PUT (api s1 @ ''/'' @ endpoint) (Some data)
                            (headers s1) (verifyCertificates s1) s1
          in if status_code req \<ge> 400
             then (Inl (Exception ''Request unsuccessfully: %s'' (Int_arg (status_code req))), s2)
             else let s3 = (if cached s2 \<and> endpoint \<in> dom (cache s2)
                            then s2\<lparr>cache := (cache s2)(endpoint \<mapsto> PNone)\<rparr> else s2)
                  in (json_of req, s3))"

definition get :: "'s server \<Rightarrow> string \<Rightarrow> 's connector \<Rightarrow> 's outcome" where
  "get srv endpoint s =
     (case cookies s ''CSRF-TOKEN'' of
        None \<Rightarrow> (Inl (KeyError ''CSRF-TOKEN''), s)
      | Some tok \<Rightarrow>
          let s1 = s\<lparr>headers := AList.update ''X-CSRF-TOKEN'' (Some tok) (headers s)\<rparr>;
              (req, s2) = session_request srv GET (api s1 @ ''/'' @ endpoint) None
                            (headers s1) (verifyCertificates s1) s1
          in if status_code req \<ge> 400
             then (Inl (Exception ''Request unsuccessfully: %s'' (Int_arg (status_code req))), s2)
             else (json_of req, s2))"

definition delete :: "'s server \<Rightarrow> string \<Rightarrow> 's connector \<Rightarrow> 's outcome" where
  "delete srv endpoint s =
     (case cookies s ''CSRF-TOKEN'' of
        None \<Rightarrow> (Inl (KeyError ''CSRF-TOKEN''), s)
      | Some tok \<Rightarrow>
          let s1 = s\<lparr>headers := AList.update ''X-CSRF-TOKEN'' (Some tok) (headers s)\<rparr>;
              (req, s2) = session_request srv DELETE (api s1 @ ''/'' @ endpoint) None
                            (headers s1) (verifyCertificates s1) s1
          in if status_code req \<ge> 400
             then (Inl (Exception ''Request unsuccessfully: %s'' (Int_arg (status_code req))), s2)
             else let s3 = (if cached s2 \<and> endpoint \<in> dom (cache s2)
                            then s2\<lparr>cache := (cache s2)(endpoint \<mapsto> PNone)\<rparr> else s2)
                  in (Inr (PBool True), s3))"

text \<open>\<open>post\<close> builds its own header dict and leaves \<open>self.headers\<close> alone.\<close>

definition post :: "'s server \<Rightarrow> string \<Rightarrow> pyval \<Rightarrow> 's connector \<Rightarrow> 's outcome" where
  "post srv endpoint data s =
     (case cookies s ''CSRF-TOKEN'' of
        None \<Rightarrow> (Inl (KeyError ''CSRF-TOKEN''), s)
      | Some tok \<Rightarrow>
          let hdrs = [(''content-type'', Some ''application/json;charset=utf-8''),
                      (''Accept'', Some ''application/json''),
                      (''X-CSRF-TOKEN'', Some tok)];
              (req, s2) = session_request srv POST (api s @ ''/'' @ endpoint) (Some data)
                            hdrs (verifyCertificates s) s
          in if status_code req \<ge> 400
             then (Inl (Exception ''Request unsuccessfully: %s'' (Bytes_arg (content req))), s2)
             else let s3 = (if cached s2 \<and> endpoint \<in> dom (cache s2)
                            then s2\<lparr>cache := (cache s2)(endpoint \<mapsto> PNone)\<rparr> else s2)
                  in (json_of req, s3))"

section \<open>The cache layer: getCached\<close>

definition getCached :: "'s server \<Rightarrow> string \<Rightarrow> 's connector \<Rightarrow> 's outcome" where
  "getCached srv cacheId s =
     (if cached s then
        (if cacheId \<in> dom (cache s) \<and> cache s cacheId \<noteq> Some PNone
         then (case cache s cacheId of Some v \<Rightarrow> (Inr v, s) | None \<Rightarrow> (Inl (KeyError cacheId), s))
         else (case get srv cacheId s of
                 (Inl e, s1) \<Rightarrow> (Inl e, s1)
               | (Inr v, s1) \<Rightarrow> (Inr v, s1\<lparr>cache := (cache s1)(cacheId \<mapsto> v)\<rparr>)))
      else get srv cacheId s)"

section \<open>Single-item helpers\<close>

text \<open>\<open>'%s' % i\<close> for an int: its decimal digits, with a sign when negative.\<close>

fun str_nat :: "nat \<Rightarrow> string" where
  "str_nat n =
     (if n < 10 then [''0123456789'' ! n]
      else str_nat (n div 10) @ [''0123456789'' ! (n mod 10)])"

declare str_nat.simps [simp del]

definition str_int :: "int \<Rightarrow> string" where
  "str_int i = (if i < 0 then CHR ''-'' # str_nat (nat (- i)) else str_nat (nat i))"

text \<open>
  \<open>data[k] = v\<close>: on a dict it stores, on anything else (a list indexed by a str, \<open>None\<close>,
  a scalar) Python raises \<open>TypeError\<close>.
\<close>

fun setitem :: "string \<Rightarrow> pyval \<Rightarrow> pyval \<Rightarrow> error + pyval" where
  "setitem k v (PDict d) = Inr (PDict (AList.update k v d))"
| "setitem k v _ = Inl TypeError"

text \<open>
  The run of \<open>if p is not None: data[k] = p\<close> statements of an update method, in the order
  of the source; a parameter left at \<open>None\<close> is skipped.
\<close>

fun patch :: "(string \<times> pyval option) list \<Rightarrow> pyval \<Rightarrow> error + pyval" where
  "patch [] data = Inr data"
| "patch ((k, None) # ps) data = patch ps data"
| "patch ((k, Some v) # ps) data =
     (case setitem k v data of Inl e \<Rightarrow> Inl e | Inr data' \<Rightarrow> patch ps data')"

text \<open>\<open>{'id': i}\<close>, and the loop \<open>for i in ids: l.append({'id': i})\<close>.\<close>

definition id_ref :: "int \<Rightarrow> pyval" where
  "id_ref i = PDict [(''id'', PInt i)]"

primrec dataList :: "int list \<Rightarrow> pyval list" where
  "dataList [] = []"
| "dataList (i # ids) = id_ref i # dataList ids"

text \<open>The tail of every update method: patch the fetched record, then \<open>self.put\<close> it.\<close>

definition patch_then_put ::
  "'s server \<Rightarrow> string \<Rightarrow> (string \<times> pyval option) list \<Rightarrow> 's outcome \<Rightarrow> 's outcome" where
  "patch_then_put srv endpoint ps fetched =
     (case fetched of
        (Inl e, s1) \<Rightarrow> (Inl e, s1)
      | (Inr data, s1) \<Rightarrow>
          (case patch ps data of
             Inl e \<Rightarrow> (Inl e, s1)
           | Inr data' \<Rightarrow> put srv endpoint data' s1))"

subsection \<open>Collection categories\<close>

definition getCollectionCategory :: "'s server \<Rightarrow> int option \<Rightarrow> 's connector \<Rightarrow> 's outcome" where
  "getCollectionCategory srv id' s =
     (case id' of
        None \<Rightarrow> (Inl (ValueError
          ''Id can't be none. Use getCollectionCategories for a list of all collection categories''), s)
      | Some i \<Rightarrow> get srv (''collectionCategorys/'' @ str_int i) s)"

definition updateCollectionCategory ::
  "'s server \<Rightarrow> int option \<Rightarrow> string option \<Rightarrow> string option \<Rightarrow> int option \<Rightarrow> bool option \<Rightarrow>
   's connector \<Rightarrow> 's outcome" where
  "updateCollectionCategory srv id' name description showOrder active s =
     (case id' of
        None \<Rightarrow> (Inl (ValueError ''Id can't be none''), s)
      | Some i \<Rightarrow>
          patch_then_put srv ''collectionCategorys''
            [(''name'', map_option PStr name),
             (''description'', map_option PStr description),
             (''showOrder'', map_option PInt showOrder),
             (''active'', map_option PBool active)]
            (getCollectionCategory srv id' s))"

definition deleteCollectionCategory :: "'s server \<Rightarrow> int option \<Rightarrow> 's connector \<Rightarrow> 's outcome" where
  "deleteCollectionCategory srv id' s =
     (case id' of
        None \<Rightarrow> (Inl (ValueError ''Id can't be none''), s)
      | Some i \<Rightarrow> delete srv (''collectionCategorys/'' @ str_int i) s)"

subsection \<open>Collection instances\<close>

definition getCollectionInstance :: "'s server \<Rightarrow> int option \<Rightarrow> 's connector \<Rightarrow> 's outcome" where
  "getCollectionInstance srv id' s =
     (case id' of
        None \<Rightarrow> (Inl (ValueError ''Id can't be none''), s)
      | Some i \<Rightarrow> get srv (''collectionInstances/'' @ str_int i) s)"

definition updateCollectionInstance ::
  "'s server \<Rightarrow> int option \<Rightarrow> string option \<Rightarrow> string option \<Rightarrow> int option \<Rightarrow> int option \<Rightarrow> bool option \<Rightarrow>
   's connector \<Rightarrow> 's outcome" where
  "updateCollectionInstance srv id' name description collectionCategoryId showOrder active s =
     (case id' of
        None \<Rightarrow> (Inl (ValueError ''Id can't be none''), s)
      | Some i \<Rightarrow>
          patch_then_put srv ''collectionInstances''
            [(''name'', map_option PStr name),
             (''description'', map_option PStr description),
             (''showOrder'', map_option PInt showOrder),
             (''active'', map_option PBool active),
             (''collectionCategory'', map_option id_ref collectionCategoryId)]
            (getCollectionInstance srv id' s))"

definition deleteCollectionInstance :: "'s server \<Rightarrow> int option \<Rightarrow> 's connector \<Rightarrow> 's outcome" where
  "deleteCollectionInstance srv id' s =
     (case id' of
        None \<Rightarrow> (Inl (ValueError ''Id can't be none''), s)
      | Some i \<Rightarrow> delete srv (''collectionInstances/'' @ str_int i) s)"

subsection \<open>Tag categories\<close>

definition getTagCategory :: "'s server \<Rightarrow> int option \<Rightarrow> 's connector \<Rightarrow> 's outcome" where
  "getTagCategory srv id' s =
     (case id' of
        None \<Rightarrow> (Inl (ValueError ''Id can't be none''), s)
      | Some i \<Rightarrow> get srv (''tagCategorys/'' @ str_int i) s)"

definition updateTagCategory ::
  "'s server \<Rightarrow> int option \<Rightarrow> string option \<Rightarrow> string option \<Rightarrow> int option \<Rightarrow> bool option \<Rightarrow>
   's connector \<Rightarrow> 's outcome" where
  "updateTagCategory srv id' name description showOrder active s =
     (case id' of
        None \<Rightarrow> (Inl (ValueError ''Id can't be none''), s)
      | Some i \<Rightarrow>
          patch_then_put srv ''tagCategorys''
            [(''name'', map_option PStr name),
             (''description'', map_option PStr description),
             (''showOrder'', map_option PInt showOrder),
             (''active'', map_option PBool active)]
            (getTagCategory srv id' s))"

definition deleteTagCategory :: "'s server \<Rightarrow> int option \<Rightarrow> 's connector \<Rightarrow> 's outcome" where
  "deleteTagCategory srv id' s =
     (case id' of
        None \<Rightarrow> (Inl (ValueError ''Id can't be none''), s)
      | Some i \<Rightarrow> delete srv (''tagCategorys/'' @ str_int i) s)"

subsection \<open>Tag instances\<close>

definition getTagInstance :: "'s server \<Rightarrow> int option \<Rightarrow> 's connector \<Rightarrow> 's outcome" where
  "getTagInstance srv id' s =
     (case id' of
        None \<Rightarrow> (Inl (ValueError ''Id can't be none''), s)
      | Some i \<Rightarrow> get srv (''tagInstances/'' @ str_int i) s)"

definition updateTagInstance ::
  "'s server \<Rightarrow> int option \<Rightarrow> string option \<Rightarrow> string option \<Rightarrow> int option \<Rightarrow> int option \<Rightarrow> bool option \<Rightarrow>
   's connector \<Rightarrow> 's outcome" where
  "updateTagInstance srv id' name description tagCategoryId showOrder active s =
     (case id' of
        None \<Rightarrow> (Inl (ValueError ''Id can't be none''), s)
      | Some i \<Rightarrow>
          patch_then_put srv ''tagInstances''
            [(''name'', map_option PStr name),
             (''description'', map_option PStr description),
             (''showOrder'', map_option PInt showOrder),
             (''active'', map_option PBool active),
             (''tagCategory'', map_option id_ref tagCategoryId)]
            (getTagInstance srv id' s))"

definition deleteTagInstance :: "'s server \<Rightarrow> int option \<Rightarrow> 's connector \<Rightarrow> 's outcome" where
  "deleteTagInstance srv id' s =
     (case id' of
        None \<Rightarrow> (Inl (ValueError ''Id can't be none''), s)
      | Some i \<Rightarrow> delete srv (''tagInstances/'' @ str_int i) s)"

subsection \<open>Requirement categories\<close>

definition getRequirementCategory :: "'s server \<Rightarrow> int option \<Rightarrow> 's connector \<Rightarrow> 's outcome" where
  "getRequirementCategory srv id' s =
     (case id' of
        None \<Rightarrow> (Inl (ValueError ''Id can't be none''), s)
      | Some i \<Rightarrow> get srv (''reqCategorys/'' @ str_int i) s)"

definition updateRequirementCategory ::
  "'s server \<Rightarrow> int option \<Rightarrow> string option \<Rightarrow> string option \<Rightarrow> string option \<Rightarrow> int option \<Rightarrow> bool option \<Rightarrow>
   's connector \<Rightarrow> 's outcome" where
  "updateRequirementCategory srv id' name shortcut description showOrder active s =
     (case id' of
        None \<Rightarrow> (Inl (ValueError ''Id can't be none''), s)
      | Some i \<Rightarrow>
          patch_then_put srv ''reqCategorys''
            [(''name'', map_option PStr name),
             (''description'', map_option PStr description),
             (''showOrder'', map_option PInt showOrder),
             (''active'', map_option PBool active),
             (''shortcut'', map_option PStr shortcut)]
            (getRequirementCategory srv id' s))"

definition deleteRequirementCategory :: "'s server \<Rightarrow> int option \<Rightarrow> 's connector \<Rightarrow> 's outcome" where
  "deleteRequirementCategory srv id' s =
     (case id' of
        None \<Rightarrow> (Inl (ValueError ''Id can't be none''), s)
      | Some i \<Rightarrow> delete srv (''reqCategorys/'' @ str_int i) s)"

subsection \<open>Requirement skeletons\<close>

definition getRequirementSkeleton :: "'s server \<Rightarrow> int option \<Rightarrow> 's connector \<Rightarrow> 's outcome" where
  "getRequirementSkeleton srv id' s =
     (case id' of
        None \<Rightarrow> (Inl (ValueError ''Id can't be none''), s)
      | Some i \<Rightarrow> get srv (''requirementSkeletons/'' @ str_int i) s)"

definition updateRequirementSkeleton ::
  "'s server \<Rightarrow> int option \<Rightarrow> string option \<Rightarrow> string option \<Rightarrow> int option \<Rightarrow>
   int list option \<Rightarrow> int list option \<Rightarrow> int list option \<Rightarrow> int option \<Rightarrow> bool option \<Rightarrow>
   string option \<Rightarrow> 's connector \<Rightarrow> 's outcome" where
  "updateRequirementSkeleton srv id' shortName description requirementCategory
     collectionInstances tagInstances projectTypes showOrder active universalId s =
     (case id' of
        None \<Rightarrow> (Inl (ValueError ''Id can't be none''), s)
      | Some i \<Rightarrow>
          patch_then_put srv ''requirementSkeletons''
            [(''description'', map_option PStr description),
             (''showOrder'', map_option PInt showOrder),
             (''active'', map_option PBool active),
             (''shortName'', map_option PStr shortName),
             (''reqCategory'', map_option id_ref requirementCategory),
             (''collectionInstances'', map_option (\<lambda>ids. PList (dataList ids)) collectionInstances),
             (''tagInstances'', map_option (\<lambda>ids. PList (dataList ids)) tagInstances),
             (''projectTypes'', map_option (\<lambda>ids. PList (dataList ids)) projectTypes),
             (''universalId'', map_option PStr universalId)]
            (getRequirementSkeleton srv id' s))"

definition deleteRequirementSkeleton :: "'s server \<Rightarrow> int option \<Rightarrow> 's connector \<Rightarrow> 's outcome" where
  "deleteRequirementSkeleton srv id' s =
     (case id' of
        None \<Rightarrow> (Inl (ValueError ''Id can't be none''), s)
      | Some i \<Rightarrow> delete srv (''requirementSkeletons/'' @ str_int i) s)"

subsection \<open>Optional column types\<close>

definition getOptColumnType :: "'s server \<Rightarrow> int option \<Rightarrow> 's connector \<Rightarrow> 's outcome" where
  "getOptColumnType srv id' s =
     (case id' of
        None \<Rightarrow> (Inl (ValueError ''Id can't be none''), s)
      | Some i \<Rightarrow> get srv (''optColumnTypes/'' @ str_int i) s)"

definition updateOptColumnType ::
  "'s server \<Rightarrow> int option \<Rightarrow> string option \<Rightarrow> string option \<Rightarrow>
   's connector \<Rightarrow> 's outcome" where
  "updateOptColumnType srv id' name description s =
     (case id' of
        None \<Rightarrow> (Inl (ValueError ''Id can't be none''), s)
      | Some i \<Rightarrow>
          patch_then_put srv ''optColumnTypes''
            [(''name'', map_option PStr name),
             (''description'', map_option PStr description)]
            (getOptColumnType srv id' s))"

definition deleteOptColumnType :: "'s server \<Rightarrow> int option \<Rightarrow> 's connector \<Rightarrow> 's outcome" where
  "deleteOptColumnType srv id' s =
     (case id' of
        None \<Rightarrow> (Inl (ValueError ''Id can't be none''), s)
      | Some i \<Rightarrow> delete srv (''optColumnTypes/'' @ str_int i) s)"

subsection \<open>Optional columns\<close>

definition getOptColumn :: "'s server \<Rightarrow> int option \<Rightarrow> 's connector \<Rightarrow> 's outcome" where
  "getOptColumn srv id' s =
     (case id' of
        None \<Rightarrow> (Inl (ValueError ''Id can't be none''), s)
      | Some i \<Rightarrow> get srv (''optColumns/'' @ str_int i) s)"

definition updateOptColumn ::
  "'s server \<Rightarrow> int option \<Rightarrow> string option \<Rightarrow> string option \<Rightarrow> int option \<Rightarrow> int option \<Rightarrow> bool option \<Rightarrow> bool option \<Rightarrow>
   's connector \<Rightarrow> 's outcome" where
  "updateOptColumn srv id' name description optColumnTypeId showOrder active isVisibleByDefault s =
     (case id' of
        None \<Rightarrow> (Inl (ValueError ''Id can't be none''), s)
      | Some i \<Rightarrow>
          patch_then_put srv ''optColumns''
            [(''name'', map_option PStr name),
             (''description'', map_option PStr description),
             (''showOrder'', map_option PInt showOrder),
             (''active'', map_option PBool active),
             (''optColumnType'', map_option id_ref optColumnTypeId),
             (''isVisibleByDefault'', map_option PBool isVisibleByDefault)]
            (getOptColumn srv id' s))"

definition deleteOptColumn :: "'s server \<Rightarrow> int option \<Rightarrow> 's connector \<Rightarrow> 's outcome" where
  "deleteOptColumn srv id' s =
     (case id' of
        None \<Rightarrow> (Inl (ValueError ''Id can't be none''), s)
      | Some i \<Rightarrow> delete srv (''optColumns/'' @ str_int i) s)"

subsection \<open>Optional column contents\<close>

definition getOptColumnContent :: "'s server \<Rightarrow> int option \<Rightarrow> 's connector \<Rightarrow> 's outcome" where
  "getOptColumnContent srv id' s =
     (case id' of
        None \<Rightarrow> (Inl (ValueError ''Id can't be none''), s)
      | Some i \<Rightarrow> get srv (''optColumnContents/'' @ str_int i) s)"

definition updateOptColumnContent ::
  "'s server \<Rightarrow> int option \<Rightarrow> string option \<Rightarrow> int option \<Rightarrow> int option \<Rightarrow>
   's connector \<Rightarrow> 's outcome" where
  "updateOptColumnContent srv id' content' optColumnId requirementSkeletonId s =
     (case id' of
        None \<Rightarrow> (Inl (ValueError ''Id can't be none''), s)
      | Some i \<Rightarrow>
          patch_then_put srv ''optColumnContents''
            [(''content'', map_option PStr content'),
             (''optColumn'', map_option id_ref optColumnId),
             (''requirementSkeleton'', map_option id_ref requirementSkeletonId)]
            (getOptColumnContent srv id' s))"

definition deleteOptColumnContent :: "'s server \<Rightarrow> int option \<Rightarrow> 's connector \<Rightarrow> 's outcome" where
  "deleteOptColumnContent srv id' s =
     (case id' of
        None \<Rightarrow> (Inl (ValueError ''Id can't be none''), s)
      | Some i \<Rightarrow> delete srv (''optColumnContents/'' @ str_int i) s)"

subsection \<open>Project types\<close>

definition getProjectType :: "'s server \<Rightarrow> int option \<Rightarrow> 's connector \<Rightarrow> 's outcome" where
  "getProjectType srv id' s =
     (case id' of
        None \<Rightarrow> (Inl (ValueError ''Id can't be none''), s)
      | Some i \<Rightarrow> get srv (''projectTypes/'' @ str_int i) s)"

definition updateProjectType ::
  "'s server \<Rightarrow> int option \<Rightarrow> string option \<Rightarrow> string option \<Rightarrow> int list option \<Rightarrow> int list option \<Rightarrow> int option \<Rightarrow> bool option \<Rightarrow>
   's connector \<Rightarrow> 's outcome" where
  "updateProjectType srv id' name description statusColumnIds optColumnIds showOrder active s =
     (case id' of
        None \<Rightarrow> (Inl (ValueError ''Id can't be none''), s)
      | Some i \<Rightarrow>
          patch_then_put srv ''projectTypes''
            [(''name'', map_option PStr name),
             (''description'', map_option PStr description),
             (''showOrder'', map_option PInt showOrder),
             (''active'', map_option PBool active),
             (''optColumns'', map_option (\<lambda>ids. PList (dataList ids)) optColumnIds),
             (''statusColumns'', map_option (\<lambda>ids. PList (dataList ids)) statusColumnIds)]
            (getProjectType srv id' s))"

definition deleteProjectType :: "'s server \<Rightarrow> int option \<Rightarrow> 's connector \<Rightarrow> 's outcome" where
  "deleteProjectType srv id' s =
     (case id' of
        None \<Rightarrow> (Inl (ValueError ''Id can't be none''), s)
      | Some i \<Rightarrow> delete srv (''projectTypes/'' @ str_int i) s)"

subsection \<open>Status columns\<close>

definition getStatusColumn :: "'s server \<Rightarrow> int option \<Rightarrow> 's connector \<Rightarrow> 's outcome" where
  "getStatusColumn srv id' s =
     (case id' of
        None \<Rightarrow> (Inl (ValueError
          ''Id can't be none. Use getCollectionCategories for a list of all collection categories''), s)
      | Some i \<Rightarrow> get srv (''statusColumns/'' @ str_int i) s)"

subsection \<open>Alternative instances\<close>

definition getAlternativeInstance :: "'s server \<Rightarrow> int option \<Rightarrow> 's connector \<Rightarrow> 's outcome" where
  "getAlternativeInstance srv id' s =
     (case id' of
        None \<Rightarrow> (Inl (ValueError
          ''Id can't be none. Use getCollectionCategories for a list of all collection categories''), s)
      | Some i \<Rightarrow> get srv (''alternativeInstances/'' @ str_int i) s)"

section \<open>Sequences of calls\<close>

text \<open>
  A client program is a sequence of calls on one connector; an exception of one call is
  caught by the caller and the next call runs on the state the failed one left.
\<close>

datatype call =
    GetCached string
  | Get string
  | Post string pyval
  | Put string pyval
  | Delete string

fun exec :: "'s server \<Rightarrow> call \<Rightarrow> 's connector \<Rightarrow> 's outcome" where
  "exec srv (GetCached E) s = getCached srv E s"
| "exec srv (Get E) s = get srv E s"
| "exec srv (Post E d) s = post srv E d s"
| "exec srv (Put E d) s = put srv E d s"
| "exec srv (Delete E) s = delete srv E s"

fun run :: "'s server \<Rightarrow> call list \<Rightarrow> 's connector \<Rightarrow> 's connector" where
  "run srv [] s = s"
| "run srv (c # cs) s = run srv cs (snd (exec srv c s))"

text \<open>\<open>mutates E c\<close>: the call is a post, put or delete against the endpoint string \<open>E\<close>.\<close>

fun mutates :: "string \<Rightarrow> call \<Rightarrow> bool" where
  "mutates E (Post E' d) = (E' = E)"
| "mutates E (Put E' d) = (E' = E)"
| "mutates E (Delete E') = (E' = E)"
| "mutates E (GetCached E') = False"
| "mutates E (Get E') = False"

section \<open>Vocabulary of the properties\<close>

text \<open>
  A cache entry is present when \<open>getCached\<close> would answer from it: caching is on and the
  key holds a value other than \<open>None\<close>.
\<close>

definition present :: "'s connector \<Rightarrow> string \<Rightarrow> bool" where
  "present s E = (cached s \<and> (case cache s E of None \<Rightarrow> False | Some v \<Rightarrow> v \<noteq> PNone))"

text \<open>What a cache miss does: call \<open>get\<close>, store the result under the key, return it.\<close>

definition fetch_and_store :: "'s server \<Rightarrow> string \<Rightarrow> 's connector \<Rightarrow> 's outcome" where
  "fetch_and_store srv E s =
     (case get srv E s of
        (Inl e, s1) \<Rightarrow> (Inl e, s1)
      | (Inr v, s1) \<Rightarrow> (Inr v, s1\<lparr>cache := (cache s1)(E \<mapsto> v)\<rparr>))"

text \<open>The error raised on a status of 400 or more, and what its message reports.\<close>

fun raises_RequestError :: "error + pyval \<Rightarrow> bool" where
  "raises_RequestError (Inl (Exception m a)) = True"
| "raises_RequestError _ = False"

fun reported_status :: "error + pyval \<Rightarrow> int option" where
  "reported_status (Inl (Exception m (Int_arg c))) = Some c"
| "reported_status _ = None"

fun reported_content :: "error + pyval \<Rightarrow> string option" where
  "reported_content (Inl (Exception m (Bytes_arg b))) = Some b"
| "reported_content _ = None"

text \<open>The newest exchange on the wire, and the anti-forgery header of a request.\<close>

definition received :: "'s connector \<Rightarrow> response" where
  "received s = snd (hd (exchanges s))"

definition latest_request :: "'s connector \<Rightarrow> request" where
  "latest_request s = fst (hd (exchanges s))"

definition csrf_header :: "request \<Rightarrow> string option option" where
  "csrf_header rq = map_of (req_headers rq) ''X-CSRF-TOKEN''"

text \<open>
  The history of an endpoint, read off the wire (newest first): a GET against it completed
  successfully, and no successful post, put or delete against it came later.
\<close>

definition get_ok :: "string \<Rightarrow> string \<Rightarrow> exchange \<Rightarrow> bool" where
  "get_ok base E x =
     (verb (fst x) = GET \<and> url (fst x) = base @ ''/'' @ E \<and>
      status_code (snd x) < 400 \<and> json (snd x) \<noteq> None)"

definition mutation_ok :: "string \<Rightarrow> string \<Rightarrow> exchange \<Rightarrow> bool" where
  "mutation_ok base E x =
     (verb (fst x) \<noteq> GET \<and> url (fst x) = base @ ''/'' @ E \<and> status_code (snd x) < 400)"

fun fetched_since_mutation :: "string \<Rightarrow> string \<Rightarrow> exchange list \<Rightarrow> bool" where
  "fetched_since_mutation base E [] = False"
| "fetched_since_mutation base E (x # xs) =
     (if get_ok base E x then True
      else if mutation_ok base E x then False
      else fetched_since_mutation base E xs)"

definition cache_inv :: "'s connector \<Rightarrow> bool" where
  "cache_inv s = (\<forall>E. present s E \<longrightarrow> fetched_since_mutation (api s) E (exchanges s))"

text \<open>
  The merge an update is meant to perform, on the record as a map: a field whose parameter
  was given takes the parameter's value, every other field keeps the fetched one.
\<close>

definition merge_spec ::
  "(string \<rightharpoonup> pyval) \<Rightarrow> (string \<times> pyval option) list \<Rightarrow> (string \<rightharpoonup> pyval)" where
  "merge_spec fetched ps =
     (\<lambda>k. case map_of ps k of Some (Some v) \<Rightarrow> Some v | _ \<Rightarrow> fetched k)"

section \<open>Example services and sessions\<close>

text \<open>A service that answers every request with the same response.\<close>

definition canned :: "response \<Rightarrow> unit server" where
  "canned rsp w rq = (rsp, w)"

definition reply :: "int \<Rightarrow> string \<Rightarrow> pyval option \<Rightarrow> response" where
  "reply c b v = \<lparr>status_code = c, content = b, json = v, set_cookie = []\<rparr>"

text \<open>A service that rotates the anti-forgery cookie with every response.\<close>

definition rotating :: "nat server" where
  "rotating n rq =
     (\<lparr>status_code = 200, content = ''[]'', json = Some (PList []),
       set_cookie = [(''CSRF-TOKEN'', ''token-'' @ str_nat (Suc n))]\<rparr>, Suc n)"

text \<open>A service holding a list of items: GET lists them, POST appends one.\<close>

definition item_store :: "pyval list server" where
  "item_store items rq =
     (case verb rq of
        GET \<Rightarrow> (reply 200 ''...'' (Some (PList items)), items)
      | POST \<Rightarrow> (case json_data rq of
                   None \<Rightarrow> (reply 400 ''no body'' None, items)
                 | Some d \<Rightarrow> (reply 201 ''...'' (Some d), items @ [d]))
      | PUT \<Rightarrow> (reply 200 ''...'' (json_data rq), items)
      | DELETE \<Rightarrow> (reply 204 [] None, items))"

text \<open>A connector after login: freshly constructed, with the token cookie in the jar.\<close>

definition logged_in :: "bool \<Rightarrow> 's \<Rightarrow> 's connector" where
  "logged_in c w = (init ''http://server/api'' True c w)\<lparr>cookies := [''CSRF-TOKEN'' \<mapsto> ''t0'']\<rparr>"

text \<open>
  A logged-in connector whose cache holds an invalidated key and a cached list, and a
  service that fails every request.
\<close>

definition stale :: "unit connector" where
  "stale = (logged_in True ())\<lparr>cache := [''items'' \<mapsto> PNone, ''tags'' \<mapsto> PList []]\<rparr>"

definition failing :: "unit server" where
  "failing = canned (reply 500 ''boom'' None)"

text \<open>
  States reached by calls: the item service after one cached fetch of \<open>items\<close> and
  after a post to \<open>items\<close> that follows it, and the rotating service after one get.
\<close>

definition after_fetch :: "pyval list connector" where
  "after_fetch = snd (getCached item_store ''items'' (logged_in True []))"

definition rotated :: "nat connector" where
  "rotated = snd (get rotating ''items'' (logged_in True 0))"

definition after_post :: "pyval list connector" where
  "after_post = snd (exec item_store (Post ''items'' (PDict [])) after_fetch)"

text \<open>A service that answers every request with one record, and what a get leaves.\<close>

definition record5 :: "(string \<times> pyval) list" where
  "record5 = [(''id'', PInt 5), (''name'', PStr ''old''), (''description'', PStr ''old text''),
     (''showOrder'', PInt 1), (''active'', PBool True)]"

definition record_service :: "unit server" where
  "record_service = canned (reply 200 ''{}'' (Some (PDict record5)))"

definition fetched :: "string \<Rightarrow> unit connector" where
  "fetched E = snd (get record_service E (logged_in True ()))"

text \<open>A service whose body is the JSON \<open>null\<close>, and the connector after one fetch from it.\<close>

definition null_service :: "unit server" where
  "null_service = canned (reply 200 ''null'' (Some PNone))"

definition after_null :: "unit connector" where
  "after_null = snd (getCached null_service ''items'' (logged_in True ()))"

section \<open>Frame lemmas\<close>

lemmas dispatch_simps = session_request_def json_of_def Let_def

lemma get_cache [simp]: "cache (snd (get srv E s)) = cache s"
  by (auto simp: get_def dispatch_simps split: option.split prod.split)

lemma get_cached [simp]: "cached (snd (get srv E s)) = cached s"
  by (auto simp: get_def dispatch_simps split: option.split prod.split)

lemma get_api [simp]: "api (snd (get srv E s)) = api s"
  by (auto simp: get_def dispatch_simps split: option.split prod.split)

lemma post_cached [simp]: "cached (snd (post srv E d s)) = cached s"
  by (auto simp: post_def dispatch_simps split: option.split prod.split)

lemma post_api [simp]: "api (snd (post srv E d s)) = api s"
  by (auto simp: post_def dispatch_simps split: option.split prod.split)

lemma put_cached [simp]: "cached (snd (put srv E d s)) = cached s"
  by (auto simp: put_def dispatch_simps split: option.split prod.split)

lemma put_api [simp]: "api (snd (put srv E d s)) = api s"
  by (auto simp: put_def dispatch_simps split: option.split prod.split)

lemma delete_cached [simp]: "cached (snd (delete srv E s)) = cached s"
  by (auto simp: delete_def dispatch_simps split: option.split prod.split)

lemma delete_api [simp]: "api (snd (delete srv E s)) = api s"
  by (auto simp: delete_def dispatch_simps split: option.split prod.split)

lemma getCached_cached [simp]: "cached (snd (getCached srv E s)) = cached s"
  by (auto simp: getCached_def split: option.split prod.split sum.split)
    (metis get_cached snd_conv)+

lemma getCached_api [simp]: "api (snd (getCached srv E s)) = api s"
  by (auto simp: getCached_def split: option.split prod.split sum.split)
    (metis get_api snd_conv)+

text \<open>The cache after a mutating call, whatever its outcome.\<close>

lemma post_cache_cases:
  "cache (snd (post srv E d s)) = cache s \<or>
   (cached s \<and> E \<in> dom (cache s) \<and> cache (snd (post srv E d s)) = (cache s)(E \<mapsto> PNone))"
  by (auto simp: post_def dispatch_simps split: option.split prod.split)

lemma put_cache_cases:
  "cache (snd (put srv E d s)) = cache s \<or>
   (cached s \<and> E \<in> dom (cache s) \<and> cache (snd (put srv E d s)) = (cache s)(E \<mapsto> PNone))"
  by (auto simp: put_def dispatch_simps split: option.split prod.split)

lemma delete_cache_cases:
  "cache (snd (delete srv E s)) = cache s \<or>
   (cached s \<and> E \<in> dom (cache s) \<and> cache (snd (delete srv E s)) = (cache s)(E \<mapsto> PNone))"
  by (auto simp: delete_def dispatch_simps split: option.split prod.split)

text \<open>A request error comes before the invalidation.\<close>

lemma post_error_cache:
  "raises_RequestError (fst (post srv E d s)) \<Longrightarrow> cache (snd (post srv E d s)) = cache s"
  by (auto simp: post_def dispatch_simps split: option.splits prod.splits if_splits)

lemma put_error_cache:
  "raises_RequestError (fst (put srv E d s)) \<Longrightarrow> cache (snd (put srv E d s)) = cache s"
  by (auto simp: put_def dispatch_simps split: option.splits prod.splits if_splits)

lemma delete_error_cache:
  "raises_RequestError (fst (delete srv E s)) \<Longrightarrow> cache (snd (delete srv E s)) = cache s"
  by (auto simp: delete_def dispatch_simps split: option.splits prod.splits if_splits)

lemma getCached_miss:
  "cached s \<Longrightarrow> \<not> present s E \<Longrightarrow> getCached srv E s = fetch_and_store srv E s"
  by (auto simp: getCached_def fetch_and_store_def present_def split: option.splits)

lemma getCached_hit:
  "cached s \<Longrightarrow> cache s E = Some v \<Longrightarrow> v \<noteq> PNone \<Longrightarrow> getCached srv E s = (Inr v, s)"
  by (auto simp: getCached_def)

lemma getCached_uncached: "\<not> cached s \<Longrightarrow> getCached srv E s = get srv E s"
  by (simp add: getCached_def)

lemma fetch_and_store_error_cache:
  "fst (fetch_and_store srv E s) = Inl e \<Longrightarrow> cache (snd (fetch_and_store srv E s)) = cache s"
  by (auto simp: fetch_and_store_def split: prod.splits sum.splits) (metis get_cache snd_conv)

lemma getCached_error_cache:
  assumes "fst (getCached srv E s) = Inl e"
  shows "cache (snd (getCached srv E s)) = cache s"
proof (cases "cached s")
  case False
  then show ?thesis by (simp add: getCached_uncached)
next
  case on: True
  show ?thesis
  proof (cases "present s E")
    case True
    with on obtain v where "cache s E = Some v" "v \<noteq> PNone"
      by (auto simp: present_def split: option.splits)
    with on show ?thesis by (simp add: getCached_hit)
  next
    case False
    with on have "getCached srv E s = fetch_and_store srv E s" by (rule getCached_miss)
    with assms show ?thesis by (simp add: fetch_and_store_error_cache)
  qed
qed


lemma raises_RequestError_Inl: "raises_RequestError r \<Longrightarrow> \<exists>e. r = Inl e"
  by (cases r) auto

text \<open>A successful mutating call with caching on clears a key that is there.\<close>

lemma post_ok_cache:
  "fst (post srv E d s) = Inr r \<Longrightarrow> cached s \<Longrightarrow> E \<in> dom (cache s) \<Longrightarrow>
   cache (snd (post srv E d s)) = (cache s)(E \<mapsto> PNone)"
  by (auto simp: post_def dispatch_simps split: option.splits prod.splits if_splits)

lemma put_ok_cache:
  "fst (put srv E d s) = Inr r \<Longrightarrow> cached s \<Longrightarrow> E \<in> dom (cache s) \<Longrightarrow>
   cache (snd (put srv E d s)) = (cache s)(E \<mapsto> PNone)"
  by (auto simp: put_def dispatch_simps split: option.splits prod.splits if_splits)

lemma delete_ok_cache:
  "fst (delete srv E s) = Inr r \<Longrightarrow> cached s \<Longrightarrow> E \<in> dom (cache s) \<Longrightarrow>
   cache (snd (delete srv E s)) = (cache s)(E \<mapsto> PNone)"
  by (auto simp: delete_def dispatch_simps split: option.splits prod.splits if_splits)

lemma post_cache_other: "E' \<noteq> E \<Longrightarrow> cache (snd (post srv E d s)) E' = cache s E'"
  using post_cache_cases [of srv E d s] by auto

lemma put_cache_other: "E' \<noteq> E \<Longrightarrow> cache (snd (put srv E d s)) E' = cache s E'"
  using put_cache_cases [of srv E d s] by auto

lemma delete_cache_other: "E' \<noteq> E \<Longrightarrow> cache (snd (delete srv E s)) E' = cache s E'"
  using delete_cache_cases [of srv E s] by auto

lemma post_dom: "dom (cache (snd (post srv E d s))) = dom (cache s)"
  using post_cache_cases [of srv E d s] by (auto split: if_splits)

lemma put_dom: "dom (cache (snd (put srv E d s))) = dom (cache s)"
  using put_cache_cases [of srv E d s] by (auto split: if_splits)

lemma delete_dom: "dom (cache (snd (delete srv E s))) = dom (cache s)"
  using delete_cache_cases [of srv E s] by (auto split: if_splits)

lemma post_cache_fresh: "E \<notin> dom (cache s) \<Longrightarrow> cache (snd (post srv E d s)) = cache s"
  using post_cache_cases [of srv E d s] by auto

lemma put_cache_fresh: "E \<notin> dom (cache s) \<Longrightarrow> cache (snd (put srv E d s)) = cache s"
  using put_cache_cases [of srv E d s] by auto

lemma delete_cache_fresh: "E \<notin> dom (cache s) \<Longrightarrow> cache (snd (delete srv E s)) = cache s"
  using delete_cache_cases [of srv E s] by auto

lemma fetch_and_store_cache_cases:
  "cache (snd (fetch_and_store srv E s)) = cache s \<or>
   (\<exists>v. fst (fetch_and_store srv E s) = Inr v \<and>
        cache (snd (fetch_and_store srv E s)) = (cache s)(E \<mapsto> v))"
proof (cases "get srv E s")
  case (Pair r s1)
  then have "cache s1 = cache s" using get_cache [of srv E s] by simp
  with Pair show ?thesis by (cases r) (simp_all add: fetch_and_store_def)
qed

lemma getCached_cache_cases:
  "cache (snd (getCached srv E s)) = cache s \<or>
   (\<exists>v. cached s \<and> fst (getCached srv E s) = Inr v \<and>
        cache (snd (getCached srv E s)) = (cache s)(E \<mapsto> v))"
proof (cases "cached s")
  case False
  then show ?thesis by (simp add: getCached_uncached)
next
  case on: True
  show ?thesis
  proof (cases "present s E")
    case True
    with on obtain v where "cache s E = Some v" "v \<noteq> PNone"
      by (auto simp: present_def split: option.splits)
    with on show ?thesis by (simp add: getCached_hit)
  next
    case False
    with on have "getCached srv E s = fetch_and_store srv E s" by (rule getCached_miss)
    with on fetch_and_store_cache_cases [of srv E s] show ?thesis by auto
  qed
qed

section \<open>Failure leaves the cache alone\<close>

text \<open>
  C5: on failure the cache is unchanged. A \<open>getCached\<close> whose \<open>get\<close> raises the request
  error writes nothing to the cache, so every prior entry is as it was; a \<open>post\<close>, \<open>put\<close>
  or \<open>delete\<close> that raises the request error (status 400 or more) invalidates nothing.
\<close>

theorem failed_call_keeps_cache:
  "(raises_RequestError (fst (getCached srv E s)) \<longrightarrow> cache (snd (getCached srv E s)) = cache s) \<and>
   (raises_RequestError (fst (post srv E d s)) \<longrightarrow> cache (snd (post srv E d s)) = cache s) \<and>
   (raises_RequestError (fst (put srv E d s)) \<longrightarrow> cache (snd (put srv E d s)) = cache s) \<and>
   (raises_RequestError (fst (delete srv E s)) \<longrightarrow> cache (snd (delete srv E s)) = cache s)"
proof -
  have "cache (snd (getCached srv E s)) = cache s" if "raises_RequestError (fst (getCached srv E s))"
  proof -
    from that obtain e where "fst (getCached srv E s) = Inl e"
      using raises_RequestError_Inl by blast
    then show ?thesis by (rule getCached_error_cache)
  qed
  then show ?thesis
    by (simp add: post_error_cache put_error_cache delete_error_cache)
qed

lemmas fixture_defs = stale_def failing_def canned_def reply_def logged_in_def init_def

theorem failed_call_keeps_cache_witness:
  "raises_RequestError (fst (getCached failing ''items'' stale)) \<and>
   cache (snd (getCached failing ''items'' stale)) = cache stale \<and>
   raises_RequestError (fst (post failing ''tags'' (PDict []) stale)) \<and>
   cache (snd (post failing ''tags'' (PDict []) stale)) = cache stale \<and>
   raises_RequestError (fst (put failing ''tags'' (PDict []) stale)) \<and>
   cache (snd (put failing ''tags'' (PDict []) stale)) = cache stale \<and>
   raises_RequestError (fst (delete failing ''tags'' stale)) \<and>
   cache (snd (delete failing ''tags'' stale)) = cache stale"
proof -
  have "raises_RequestError (fst (getCached failing ''items'' stale))"
    by (simp add: getCached_def get_def dispatch_simps fixture_defs)
  moreover have "raises_RequestError (fst (post failing ''tags'' (PDict []) stale))"
    by (simp add: post_def dispatch_simps fixture_defs)
  moreover have "raises_RequestError (fst (put failing ''tags'' (PDict []) stale))"
    by (simp add: put_def dispatch_simps fixture_defs)
  moreover have "raises_RequestError (fst (delete failing ''tags'' stale))"
    by (simp add: delete_def dispatch_simps fixture_defs)
  ultimately show ?thesis
    using failed_call_keeps_cache [of failing "''items''" stale "PDict []"]
      failed_call_keeps_cache [of failing "''tags''" stale "PDict []"]
    by blast
qed

section \<open>Invalidation is by exact key\<close>

text \<open>
  C7: invalidation matches cache keys by exact endpoint string equality. A mutation
  against \<open>E\<close> leaves the cache entry of every other endpoint string as it was; in
  particular a mutation against \<open>E/5\<close> does not clear the entry at \<open>E\<close>.
\<close>

theorem invalidation_exact_key:
  "(E' \<noteq> E \<longrightarrow>
      cache (snd (post srv E d s)) E' = cache s E' \<and>
      cache (snd (put srv E d s)) E' = cache s E' \<and>
      cache (snd (delete srv E s)) E' = cache s E') \<and>
   cache (snd (post srv (E @ ''/5'') d s)) E = cache s E \<and>
   cache (snd (put srv (E @ ''/5'') d s)) E = cache s E \<and>
   cache (snd (delete srv (E @ ''/5'') s)) E = cache s E"
  by (simp add: post_cache_other put_cache_other delete_cache_other)

lemmas store_defs = after_fetch_def item_store_def reply_def logged_in_def init_def

lemma after_fetch_cache: "cache after_fetch ''items'' = Some (PList [])"
  by (simp add: getCached_def get_def dispatch_simps store_defs)

lemma after_fetch_cookie: "cookies after_fetch ''CSRF-TOKEN'' = Some ''t0''"
  by (simp add: getCached_def get_def dispatch_simps store_defs)

lemma after_fetch_cached: "cached after_fetch"
  by (simp add: after_fetch_def logged_in_def init_def)

theorem invalidation_exact_key_witness:
  "''items'' \<noteq> ''items/5'' \<and>
   fst (delete item_store ''items/5'' after_fetch) = Inr (PBool True) \<and>
   cache (snd (delete item_store ''items/5'' after_fetch)) ''items'' = Some (PList [])"
proof -
  have "fst (delete item_store ''items/5'' after_fetch) = Inr (PBool True)"
    using after_fetch_cookie
    by (simp add: delete_def dispatch_simps item_store_def reply_def)
  then show ?thesis
    using invalidation_exact_key [of "''items''" "''items/5''" item_store "PDict []" after_fetch]
      after_fetch_cache
    by simp
qed


section \<open>What a dispatched call puts on the wire and returns\<close>

lemma get_sent:
  assumes "cookies s ''CSRF-TOKEN'' = Some t"
  shows "\<exists>rq rsp. exchanges (snd (get srv E s)) = (rq, rsp) # exchanges s \<and>
           verb rq = GET \<and> url rq = api s @ ''/'' @ E \<and> csrf_header rq = Some (Some t) \<and>
           fst (get srv E s) =
             (if 400 \<le> status_code rsp
              then Inl (Exception ''Request unsuccessfully: %s'' (Int_arg (status_code rsp)))
              else case json rsp of None \<Rightarrow> Inl JSONDecodeError | Some v \<Rightarrow> Inr v)"
proof -
  define rq where "rq = \<lparr>verb = GET, url = api s @ ''/'' @ E, json_data = None,
    req_headers = AList.update ''X-CSRF-TOKEN'' (Some t) (headers s), verify = verifyCertificates s\<rparr>"
  obtain rsp w where "srv (remote s) rq = (rsp, w)"
    by (cases "srv (remote s) rq")
  with assms show ?thesis
    by (intro exI [of _ rq] exI [of _ rsp])
      (simp add: get_def dispatch_simps csrf_header_def rq_def update_conv' split: option.split)
qed

lemma put_sent:
  assumes "cookies s ''CSRF-TOKEN'' = Some t"
  shows "\<exists>rq rsp. exchanges (snd (put srv E d s)) = (rq, rsp) # exchanges s \<and>
           verb rq = PUT \<and> url rq = api s @ ''/'' @ E \<and> csrf_header rq = Some (Some t) \<and>
           json_data rq = Some d \<and>
           fst (put srv E d s) =
             (if 400 \<le> status_code rsp
              then Inl (Exception ''Request unsuccessfully: %s'' (Int_arg (status_code rsp)))
              else case json rsp of None \<Rightarrow> Inl JSONDecodeError | Some v \<Rightarrow> Inr v)"
proof -
  define rq where "rq = \<lparr>verb = PUT, url = api s @ ''/'' @ E, json_data = Some d,
    req_headers = AList.update ''X-CSRF-TOKEN'' (Some t) (headers s), verify = verifyCertificates s\<rparr>"
  obtain rsp w where "srv (remote s) rq = (rsp, w)"
    by (cases "srv (remote s) rq")
  with assms show ?thesis
    by (intro exI [of _ rq] exI [of _ rsp])
      (simp add: put_def dispatch_simps csrf_header_def rq_def update_conv' split: option.split)
qed

lemma delete_sent:
  assumes "cookies s ''CSRF-TOKEN'' = Some t"
  shows "\<exists>rq rsp. exchanges (snd (delete srv E s)) = (rq, rsp) # exchanges s \<and>
           verb rq = DELETE \<and> url rq = api s @ ''/'' @ E \<and> csrf_header rq = Some (Some t) \<and>
           fst (delete srv E s) =
             (if 400 \<le> status_code rsp
              then Inl (Exception ''Request unsuccessfully: %s'' (Int_arg (status_code rsp)))
              else Inr (PBool True))"
proof -
  define rq where "rq = \<lparr>verb = DELETE, url = api s @ ''/'' @ E, json_data = None,
    req_headers = AList.update ''X-CSRF-TOKEN'' (Some t) (headers s), verify = verifyCertificates s\<rparr>"
  obtain rsp w where "srv (remote s) rq = (rsp, w)"
    by (cases "srv (remote s) rq")
  with assms show ?thesis
    by (intro exI [of _ rq] exI [of _ rsp])
      (simp add: delete_def dispatch_simps csrf_header_def rq_def update_conv' split: option.split)
qed

lemma post_sent:
  assumes "cookies s ''CSRF-TOKEN'' = Some t"
  shows "\<exists>rq rsp. exchanges (snd (post srv E d s)) = (rq, rsp) # exchanges s \<and>
           verb rq = POST \<and> url rq = api s @ ''/'' @ E \<and> csrf_header rq = Some (Some t) \<and>
           json_data rq = Some d \<and>
           fst (post srv E d s) =
             (if 400 \<le> status_code rsp
              then Inl (Exception ''Request unsuccessfully: %s'' (Bytes_arg (content rsp)))
              else case json rsp of None \<Rightarrow> Inl JSONDecodeError | Some v \<Rightarrow> Inr v)"
proof -
  define rq where "rq = \<lparr>verb = POST, url = api s @ ''/'' @ E, json_data = Some d,
    req_headers = [(''content-type'', Some ''application/json;charset=utf-8''),
      (''Accept'', Some ''application/json''), (''X-CSRF-TOKEN'', Some t)], verify = verifyCertificates s\<rparr>"
  obtain rsp w where "srv (remote s) rq = (rsp, w)"
    by (cases "srv (remote s) rq")
  with assms show ?thesis
    by (intro exI [of _ rq] exI [of _ rsp])
      (simp add: post_def dispatch_simps csrf_header_def rq_def split: option.split)
qed

text \<open>Without the token cookie nothing is sent.\<close>

lemma no_token_get:
  "cookies s ''CSRF-TOKEN'' = None \<Longrightarrow>
   get srv E s = (Inl (KeyError ''CSRF-TOKEN''), s)"
  by (simp add: get_def)

lemma no_token_put:
  "cookies s ''CSRF-TOKEN'' = None \<Longrightarrow>
   put srv E d s = (Inl (KeyError ''CSRF-TOKEN''), s)"
  by (simp add: put_def)

lemma no_token_post:
  "cookies s ''CSRF-TOKEN'' = None \<Longrightarrow>
   post srv E d s = (Inl (KeyError ''CSRF-TOKEN''), s)"
  by (simp add: post_def)

lemma no_token_delete:
  "cookies s ''CSRF-TOKEN'' = None \<Longrightarrow>
   delete srv E s = (Inl (KeyError ''CSRF-TOKEN''), s)"
  by (simp add: delete_def)


text \<open>The same, read off the newest exchange of the state the call leaves.\<close>

lemma get_received:
  assumes "cookies s ''CSRF-TOKEN'' = Some t"
  shows "exchanges (snd (get srv E s)) =
           (latest_request (snd (get srv E s)), received (snd (get srv E s))) # exchanges s"
    and "csrf_header (latest_request (snd (get srv E s))) = Some (Some t)"
    and "fst (get srv E s) =
           (if 400 \<le> status_code (received (snd (get srv E s)))
            then Inl (Exception ''Request unsuccessfully: %s''
                   (Int_arg (status_code (received (snd (get srv E s))))))
            else case json (received (snd (get srv E s))) of
                   None \<Rightarrow> Inl JSONDecodeError | Some v \<Rightarrow> Inr v)"
  using get_sent [OF assms, of srv E] by (auto simp: received_def latest_request_def)

lemma put_received:
  assumes "cookies s ''CSRF-TOKEN'' = Some t"
  shows "exchanges (snd (put srv E d s)) =
           (latest_request (snd (put srv E d s)), received (snd (put srv E d s))) # exchanges s"
    and "csrf_header (latest_request (snd (put srv E d s))) = Some (Some t)"
    and "fst (put srv E d s) =
           (if 400 \<le> status_code (received (snd (put srv E d s)))
            then Inl (Exception ''Request unsuccessfully: %s''
                   (Int_arg (status_code (received (snd (put srv E d s))))))
            else case json (received (snd (put srv E d s))) of
                   None \<Rightarrow> Inl JSONDecodeError | Some v \<Rightarrow> Inr v)"
  using put_sent [OF assms, of srv E d] by (auto simp: received_def latest_request_def)

lemma delete_received:
  assumes "cookies s ''CSRF-TOKEN'' = Some t"
  shows "exchanges (snd (delete srv E s)) =
           (latest_request (snd (delete srv E s)), received (snd (delete srv E s))) # exchanges s"
    and "csrf_header (latest_request (snd (delete srv E s))) = Some (Some t)"
    and "fst (delete srv E s) =
           (if 400 \<le> status_code (received (snd (delete srv E s)))
            then Inl (Exception ''Request unsuccessfully: %s''
                   (Int_arg (status_code (received (snd (delete srv E s))))))
            else Inr (PBool True))"
  using delete_sent [OF assms, of srv E] by (auto simp: received_def latest_request_def)

lemma post_received:
  assumes "cookies s ''CSRF-TOKEN'' = Some t"
  shows "exchanges (snd (post srv E d s)) =
           (latest_request (snd (post srv E d s)), received (snd (post srv E d s))) # exchanges s"
    and "csrf_header (latest_request (snd (post srv E d s))) = Some (Some t)"
    and "fst (post srv E d s) =
           (if 400 \<le> status_code (received (snd (post srv E d s)))
            then Inl (Exception ''Request unsuccessfully: %s''
                   (Bytes_arg (content (received (snd (post srv E d s))))))
            else case json (received (snd (post srv E d s))) of
                   None \<Rightarrow> Inl JSONDecodeError | Some v \<Rightarrow> Inr v)"
  using post_sent [OF assms, of srv E d] by (auto simp: received_def latest_request_def)

section \<open>The error threshold\<close>

text \<open>
  C3, as the code has it: for each of get, post, put and delete and every status code of
  the response, the call raises the request error exactly when the status is 400 or more.
  Below 400 (2xx and 3xx alike) get, post and put return the decoded body of the response
  when the body decodes, and raise the decoder's exception, which is not the request
  error, when it does not; delete returns \<open>True\<close> without looking at the body.
\<close>

theorem error_threshold:
  assumes "cookies s ''CSRF-TOKEN'' = Some t"
  shows
  "(raises_RequestError (fst (get srv E s)) \<longleftrightarrow>
      400 \<le> status_code (received (snd (get srv E s)))) \<and>
   (status_code (received (snd (get srv E s))) < 400 \<and>
    json (received (snd (get srv E s))) = Some v \<longrightarrow> fst (get srv E s) = Inr v) \<and>
   (status_code (received (snd (get srv E s))) < 400 \<and>
    json (received (snd (get srv E s))) = None \<longrightarrow> fst (get srv E s) = Inl JSONDecodeError) \<and>
   (raises_RequestError (fst (post srv E d s)) \<longleftrightarrow>
      400 \<le> status_code (received (snd (post srv E d s)))) \<and>
   (status_code (received (snd (post srv E d s))) < 400 \<and>
    json (received (snd (post srv E d s))) = Some v \<longrightarrow> fst (post srv E d s) = Inr v) \<and>
   (status_code (received (snd (post srv E d s))) < 400 \<and>
    json (received (snd (post srv E d s))) = None \<longrightarrow>
      fst (post srv E d s) = Inl JSONDecodeError) \<and>
   (raises_RequestError (fst (put srv E d s)) \<longleftrightarrow>
      400 \<le> status_code (received (snd (put srv E d s)))) \<and>
   (status_code (received (snd (put srv E d s))) < 400 \<and>
    json (received (snd (put srv E d s))) = Some v \<longrightarrow> fst (put srv E d s) = Inr v) \<and>
   (status_code (received (snd (put srv E d s))) < 400 \<and>
    json (received (snd (put srv E d s))) = None \<longrightarrow>
      fst (put srv E d s) = Inl JSONDecodeError) \<and>
   (raises_RequestError (fst (delete srv E s)) \<longleftrightarrow>
      400 \<le> status_code (received (snd (delete srv E s)))) \<and>
   (status_code (received (snd (delete srv E s))) < 400 \<longrightarrow>
      fst (delete srv E s) = Inr (PBool True))"
proof -
  have g: "raises_RequestError (fst (get srv E s)) \<longleftrightarrow>
      400 \<le> status_code (received (snd (get srv E s)))"
    by (subst get_received(3) [OF assms]) (simp split: option.split)
  have gv: "fst (get srv E s) = Inr v"
    if "status_code (received (snd (get srv E s))) < 400 \<and>
        json (received (snd (get srv E s))) = Some v"
    using that by (subst get_received(3) [OF assms]) simp
  have gn: "fst (get srv E s) = Inl JSONDecodeError"
    if "status_code (received (snd (get srv E s))) < 400 \<and>
        json (received (snd (get srv E s))) = None"
    using that by (subst get_received(3) [OF assms]) simp
  have p: "raises_RequestError (fst (post srv E d s)) \<longleftrightarrow>
      400 \<le> status_code (received (snd (post srv E d s)))"
    by (subst post_received(3) [OF assms]) (simp split: option.split)
  have pv: "fst (post srv E d s) = Inr v"
    if "status_code (received (snd (post srv E d s))) < 400 \<and>
        json (received (snd (post srv E d s))) = Some v"
    using that by (subst post_received(3) [OF assms]) simp
  have pn: "fst (post srv E d s) = Inl JSONDecodeError"
    if "status_code (received (snd (post srv E d s))) < 400 \<and>
        json (received (snd (post srv E d s))) = None"
    using that by (subst post_received(3) [OF assms]) simp
  have u: "raises_RequestError (fst (put srv E d s)) \<longleftrightarrow>
      400 \<le> status_code (received (snd (put srv E d s)))"
    by (subst put_received(3) [OF assms]) (simp split: option.split)
  have uv: "fst (put srv E d s) = Inr v"
    if "status_code (received (snd (put srv E d s))) < 400 \<and>
        json (received (snd (put srv E d s))) = Some v"
    using that by (subst put_received(3) [OF assms]) simp
  have un: "fst (put srv E d s) = Inl JSONDecodeError"
    if "status_code (received (snd (put srv E d s))) < 400 \<and>
        json (received (snd (put srv E d s))) = None"
    using that by (subst put_received(3) [OF assms]) simp
  have x: "raises_RequestError (fst (delete srv E s)) \<longleftrightarrow>
      400 \<le> status_code (received (snd (delete srv E s)))"
    by (subst delete_received(3) [OF assms]) simp
  have xv: "fst (delete srv E s) = Inr (PBool True)"
    if "status_code (received (snd (delete srv E s))) < 400"
    using that by (subst delete_received(3) [OF assms]) simp
  from g gv gn p pv pn u uv un x xv show ?thesis by blast
qed

lemmas canned_defs = canned_def reply_def logged_in_def init_def received_def

text \<open>
  Statuses 404, 400 and 500 raise the request error; 200, 201 and 302 with a body that
  decodes return it; 204 with no body raises the decoder's exception from put and returns
  \<open>True\<close> from delete.
\<close>

theorem error_threshold_witness:
  "cookies (logged_in True ()) ''CSRF-TOKEN'' = Some ''t0'' \<and>
   raises_RequestError (fst (get (canned (reply 404 ''gone'' None)) ''items/7''
     (logged_in True ()))) \<and>
   raises_RequestError (fst (post (canned (reply 400 ''bad'' None)) ''items'' (PDict [])
     (logged_in True ()))) \<and>
   raises_RequestError (fst (put (canned (reply 500 ''boom'' None)) ''items'' (PDict [])
     (logged_in True ()))) \<and>
   raises_RequestError (fst (delete (canned (reply 400 ''bad'' None)) ''items/7''
     (logged_in True ()))) \<and>
   fst (get (canned (reply 200 ''[]'' (Some (PList [])))) ''items'' (logged_in True ()))
     = Inr (PList []) \<and>
   fst (post (canned (reply 201 ''{}'' (Some (PDict [])))) ''items'' (PDict []) (logged_in True ()))
     = Inr (PDict []) \<and>
   fst (put (canned (reply 302 ''{}'' (Some (PDict [])))) ''items'' (PDict []) (logged_in True ()))
     = Inr (PDict []) \<and>
   fst (put (canned (reply 204 [] None)) ''items'' (PDict []) (logged_in True ()))
     = Inl JSONDecodeError \<and>
   fst (delete (canned (reply 204 [] None)) ''items/7'' (logged_in True ())) = Inr (PBool True)"
proof -
  have tok: "cookies (logged_in True ()) ''CSRF-TOKEN'' = Some ''t0''"
    by (simp add: logged_in_def)
  have "status_code (received (snd (get (canned (reply 404 ''gone'' None)) ''items/7''
          (logged_in True ())))) = 404"
    by (simp add: get_def dispatch_simps canned_defs)
  with error_threshold [OF tok, where srv = "canned (reply 404 ''gone'' None)"
      and E = "''items/7''"]
  have g: "raises_RequestError (fst (get (canned (reply 404 ''gone'' None)) ''items/7''
      (logged_in True ())))"
    by simp
  have "status_code (received (snd (post (canned (reply 400 ''bad'' None)) ''items'' (PDict [])
          (logged_in True ())))) = 400"
    by (simp add: post_def dispatch_simps canned_defs)
  with error_threshold [OF tok, where srv = "canned (reply 400 ''bad'' None)"
      and E = "''items''" and d = "PDict []"]
  have p: "raises_RequestError (fst (post (canned (reply 400 ''bad'' None)) ''items'' (PDict [])
      (logged_in True ())))"
    by simp
  have "status_code (received (snd (put (canned (reply 500 ''boom'' None)) ''items'' (PDict [])
          (logged_in True ())))) = 500"
    by (simp add: put_def dispatch_simps canned_defs)
  with error_threshold [OF tok, where srv = "canned (reply 500 ''boom'' None)"
      and E = "''items''" and d = "PDict []"]
  have u: "raises_RequestError (fst (put (canned (reply 500 ''boom'' None)) ''items'' (PDict [])
      (logged_in True ())))"
    by simp
  have "status_code (received (snd (delete (canned (reply 400 ''bad'' None)) ''items/7''
          (logged_in True ())))) = 400"
    by (simp add: delete_def dispatch_simps canned_defs)
  with error_threshold [OF tok, where srv = "canned (reply 400 ''bad'' None)"
      and E = "''items/7''"]
  have d: "raises_RequestError (fst (delete (canned (reply 400 ''bad'' None)) ''items/7''
      (logged_in True ())))"
    by simp
  have "status_code (received (snd (get (canned (reply 200 ''[]'' (Some (PList [])))) ''items''
          (logged_in True ())))) = 200"
    "json (received (snd (get (canned (reply 200 ''[]'' (Some (PList [])))) ''items''
          (logged_in True ())))) = Some (PList [])"
    by (simp_all add: get_def dispatch_simps canned_defs)
  with error_threshold [OF tok, where srv = "canned (reply 200 ''[]'' (Some (PList [])))"
      and E = "''items''" and v = "PList []"]
  have g2: "fst (get (canned (reply 200 ''[]'' (Some (PList [])))) ''items'' (logged_in True ()))
      = Inr (PList [])"
    by simp
  have "status_code (received (snd (post (canned (reply 201 ''{}'' (Some (PDict [])))) ''items''
          (PDict []) (logged_in True ())))) = 201"
    "json (received (snd (post (canned (reply 201 ''{}'' (Some (PDict [])))) ''items''
          (PDict []) (logged_in True ())))) = Some (PDict [])"
    by (simp_all add: post_def dispatch_simps canned_defs)
  with error_threshold [OF tok, where srv = "canned (reply 201 ''{}'' (Some (PDict [])))"
      and E = "''items''" and d = "PDict []" and v = "PDict []"]
  have p2: "fst (post (canned (reply 201 ''{}'' (Some (PDict [])))) ''items'' (PDict [])
      (logged_in True ())) = Inr (PDict [])"
    by simp
  have "status_code (received (snd (put (canned (reply 302 ''{}'' (Some (PDict [])))) ''items''
          (PDict []) (logged_in True ())))) = 302"
    "json (received (snd (put (canned (reply 302 ''{}'' (Some (PDict [])))) ''items''
          (PDict []) (logged_in True ())))) = Some (PDict [])"
    by (simp_all add: put_def dispatch_simps canned_defs)
  with error_threshold [OF tok, where srv = "canned (reply 302 ''{}'' (Some (PDict [])))"
      and E = "''items''" and d = "PDict []" and v = "PDict []"]
  have u2: "fst (put (canned (reply 302 ''{}'' (Some (PDict [])))) ''items'' (PDict [])
      (logged_in True ())) = Inr (PDict [])"
    by simp
  have "status_code (received (snd (put (canned (reply 204 [] None)) ''items''
          (PDict []) (logged_in True ())))) = 204"
    "json (received (snd (put (canned (reply 204 [] None)) ''items''
          (PDict []) (logged_in True ())))) = None"
    by (simp_all add: put_def dispatch_simps canned_defs)
  with error_threshold [OF tok, where srv = "canned (reply 204 [] None)"
      and E = "''items''" and d = "PDict []"]
  have u3: "fst (put (canned (reply 204 [] None)) ''items'' (PDict []) (logged_in True ()))
      = Inl JSONDecodeError"
    by simp
  have "status_code (received (snd (delete (canned (reply 204 [] None)) ''items/7''
          (logged_in True ())))) = 204"
    by (simp add: delete_def dispatch_simps canned_defs)
  with error_threshold [OF tok, where srv = "canned (reply 204 [] None)" and E = "''items/7''"]
  have d2: "fst (delete (canned (reply 204 [] None)) ''items/7'' (logged_in True ()))
      = Inr (PBool True)"
    by simp
  from tok g p u d g2 p2 u2 u3 d2 show ?thesis by blast
qed

text \<open>
  That get, post and put return a decoded body for every status below 400 does not hold:
  a 204 with no body, or a 201 whose body is not JSON, passes the status test and then
  \<open>req.json()\<close> raises. No request error is raised, and nothing is returned.
\<close>

theorem undecodable_body_raises:
  "status_code (received (snd (get (canned (reply 204 [] None)) ''items/7''
     (logged_in True ())))) = 204 \<and>
   fst (get (canned (reply 204 [] None)) ''items/7'' (logged_in True ()))
     = Inl JSONDecodeError \<and>
   status_code (received (snd (put (canned (reply 204 [] None)) ''items'' (PDict [])
     (logged_in True ())))) = 204 \<and>
   fst (put (canned (reply 204 [] None)) ''items'' (PDict []) (logged_in True ()))
     = Inl JSONDecodeError \<and>
   status_code (received (snd (post (canned (reply 201 ''created'' None)) ''items'' (PDict [])
     (logged_in True ())))) = 201 \<and>
   fst (post (canned (reply 201 ''created'' None)) ''items'' (PDict []) (logged_in True ()))
     = Inl JSONDecodeError \<and>
   \<not> raises_RequestError (fst (put (canned (reply 204 [] None)) ''items'' (PDict [])
     (logged_in True ())))"
  by (simp add: get_def put_def post_def dispatch_simps canned_defs)

section \<open>What the request error reports\<close>

text \<open>
  C4, as the code has it: on a status of 400 or more, get, put and delete raise a request
  error whose message reports the status code of the response and nothing else; post
  raises a request error whose message is built from the raw content of the response
  (\<open>req.content\<close>, as it is) and not from the status code.
\<close>

theorem request_error_report:
  assumes "cookies s ''CSRF-TOKEN'' = Some t"
  shows
  "(400 \<le> status_code (received (snd (get srv E s))) \<longrightarrow>
      fst (get srv E s) = Inl (Exception ''Request unsuccessfully: %s''
        (Int_arg (status_code (received (snd (get srv E s))))))) \<and>
   (400 \<le> status_code (received (snd (put srv E d s))) \<longrightarrow>
      fst (put srv E d s) = Inl (Exception ''Request unsuccessfully: %s''
        (Int_arg (status_code (received (snd (put srv E d s))))))) \<and>
   (400 \<le> status_code (received (snd (delete srv E s))) \<longrightarrow>
      fst (delete srv E s) = Inl (Exception ''Request unsuccessfully: %s''
        (Int_arg (status_code (received (snd (delete srv E s))))))) \<and>
   (400 \<le> status_code (received (snd (post srv E d s))) \<longrightarrow>
      fst (post srv E d s) = Inl (Exception ''Request unsuccessfully: %s''
        (Bytes_arg (content (received (snd (post srv E d s)))))) \<and>
      reported_content (fst (post srv E d s)) = Some (content (received (snd (post srv E d s)))) \<and>
      reported_status (fst (post srv E d s)) = None)"
proof -
  have "fst (post srv E d s) = Inl (Exception ''Request unsuccessfully: %s''
        (Bytes_arg (content (received (snd (post srv E d s))))))"
    if "400 \<le> status_code (received (snd (post srv E d s)))"
    using that by (subst post_received(3) [OF assms]) simp
  moreover have "fst (get srv E s) = Inl (Exception ''Request unsuccessfully: %s''
        (Int_arg (status_code (received (snd (get srv E s))))))"
    if "400 \<le> status_code (received (snd (get srv E s)))"
    using that by (subst get_received(3) [OF assms]) simp
  moreover have "fst (put srv E d s) = Inl (Exception ''Request unsuccessfully: %s''
        (Int_arg (status_code (received (snd (put srv E d s))))))"
    if "400 \<le> status_code (received (snd (put srv E d s)))"
    using that by (subst put_received(3) [OF assms]) simp
  moreover have "fst (delete srv E s) = Inl (Exception ''Request unsuccessfully: %s''
        (Int_arg (status_code (received (snd (delete srv E s))))))"
    if "400 \<le> status_code (received (snd (delete srv E s)))"
    using that by (subst delete_received(3) [OF assms]) simp
  ultimately show ?thesis by simp
qed

lemma stale_token: "cookies stale ''CSRF-TOKEN'' = Some ''t0''"
  by (simp add: stale_def logged_in_def)

lemmas failing_defs = failing_def stale_def canned_defs

theorem request_error_report_witness:
  "cookies stale ''CSRF-TOKEN'' = Some ''t0'' \<and>
   fst (get failing ''tags'' stale) = Inl (Exception ''Request unsuccessfully: %s'' (Int_arg 500)) \<and>
   fst (put failing ''tags'' (PDict []) stale)
     = Inl (Exception ''Request unsuccessfully: %s'' (Int_arg 500)) \<and>
   fst (delete failing ''tags'' stale) = Inl (Exception ''Request unsuccessfully: %s'' (Int_arg 500)) \<and>
   fst (post failing ''tags'' (PDict []) stale)
     = Inl (Exception ''Request unsuccessfully: %s'' (Bytes_arg ''boom''))"
proof -
  have "status_code (received (snd (get failing ''tags'' stale))) = 500"
    by (simp add: get_def dispatch_simps failing_defs)
  moreover have "status_code (received (snd (put failing ''tags'' (PDict []) stale))) = 500"
    by (simp add: put_def dispatch_simps failing_defs)
  moreover have "status_code (received (snd (delete failing ''tags'' stale))) = 500"
    by (simp add: delete_def dispatch_simps failing_defs)
  moreover have "status_code (received (snd (post failing ''tags'' (PDict []) stale))) = 500"
    "content (received (snd (post failing ''tags'' (PDict []) stale))) = ''boom''"
    by (simp_all add: post_def dispatch_simps failing_defs)
  ultimately show ?thesis
    using request_error_report [OF stale_token, where srv = failing and E = "''tags''"
        and d = "PDict []"] stale_token
    by simp
qed

text \<open>
  That all four operations report the status code, post adding the content to it, does not
  hold of post: a 500 answered to a post leaves the content in the error and no status
  code.
\<close>

theorem post_error_omits_status:
  "status_code (received (snd (post failing ''tags'' (PDict []) stale))) = 500 \<and>
   raises_RequestError (fst (post failing ''tags'' (PDict []) stale)) \<and>
   reported_status (fst (post failing ''tags'' (PDict []) stale)) \<noteq> Some 500 \<and>
   fst (post failing ''tags'' (PDict []) stale)
     = Inl (Exception ''Request unsuccessfully: %s'' (Bytes_arg ''boom''))"
  by (simp add: post_def dispatch_simps failing_defs)

section \<open>The anti-forgery token is read at every call\<close>

text \<open>
  C8: for every call of get, post, put or delete that is dispatched, the \<open>X-CSRF-TOKEN\<close>
  header of the request that goes out is the value the session's cookie jar holds for
  \<open>CSRF-TOKEN\<close> at that moment, whatever \<open>self.headers\<close> held from construction or from an
  earlier call; each call sends exactly one request.
\<close>

theorem token_read_at_call:
  assumes "cookies s ''CSRF-TOKEN'' = Some t"
  shows
  "csrf_header (latest_request (snd (get srv E s))) = Some (Some t) \<and>
   tl (exchanges (snd (get srv E s))) = exchanges s \<and>
   csrf_header (latest_request (snd (post srv E d s))) = Some (Some t) \<and>
   tl (exchanges (snd (post srv E d s))) = exchanges s \<and>
   csrf_header (latest_request (snd (put srv E d s))) = Some (Some t) \<and>
   tl (exchanges (snd (put srv E d s))) = exchanges s \<and>
   csrf_header (latest_request (snd (delete srv E s))) = Some (Some t) \<and>
   tl (exchanges (snd (delete srv E s))) = exchanges s"
proof -
  have "tl (exchanges (snd (get srv E s))) = exchanges s"
    by (subst get_received(1) [OF assms]) simp
  moreover have "tl (exchanges (snd (post srv E d s))) = exchanges s"
    by (subst post_received(1) [OF assms]) simp
  moreover have "tl (exchanges (snd (put srv E d s))) = exchanges s"
    by (subst put_received(1) [OF assms]) simp
  moreover have "tl (exchanges (snd (delete srv E s))) = exchanges s"
    by (subst delete_received(1) [OF assms]) simp
  ultimately show ?thesis
    by (simp add: get_received(2) [OF assms] post_received(2) [OF assms]
        put_received(2) [OF assms] delete_received(2) [OF assms])
qed

lemma rotated_token: "cookies rotated ''CSRF-TOKEN'' = Some ''token-1''"
  by (simp add: rotated_def rotating_def get_def dispatch_simps logged_in_def init_def
      str_nat.simps)

text \<open>
  After one answer of the rotating service the jar holds the new token, while the request
  just sent, and \<open>self.headers\<close>, carried the old one; the next call of each kind sends the
  new one.
\<close>

theorem token_read_at_call_witness:
  "cookies rotated ''CSRF-TOKEN'' = Some ''token-1'' \<and>
   csrf_header (latest_request rotated) = Some (Some ''t0'') \<and>
   map_of (headers rotated) ''X-CSRF-TOKEN'' = Some (Some ''t0'') \<and>
   csrf_header (latest_request (snd (get rotating ''items'' rotated))) = Some (Some ''token-1'') \<and>
   csrf_header (latest_request (snd (post rotating ''items'' (PDict []) rotated)))
     = Some (Some ''token-1'') \<and>
   csrf_header (latest_request (snd (put rotating ''items'' (PDict []) rotated)))
     = Some (Some ''token-1'') \<and>
   csrf_header (latest_request (snd (delete rotating ''items/3'' rotated))) = Some (Some ''token-1'')"
proof -
  have "csrf_header (latest_request rotated) = Some (Some ''t0'')"
    "map_of (headers rotated) ''X-CSRF-TOKEN'' = Some (Some ''t0'')"
    by (simp_all add: rotated_def rotating_def get_def dispatch_simps logged_in_def init_def
        csrf_header_def latest_request_def)
  then show ?thesis
    using rotated_token
      token_read_at_call [OF rotated_token, where srv = rotating and E = "''items''"
        and d = "PDict []"]
      token_read_at_call [OF rotated_token, where srv = rotating and E = "''items/3''"
        and d = "PDict []"]
    by simp
qed

section \<open>The keys of the cache\<close>

lemma getCached_dom: "dom (cache (snd (getCached srv E s))) \<subseteq> insert E (dom (cache s))"
  using getCached_cache_cases [of srv E s] by (auto split: if_splits)

lemma getCached_none_miss:
  assumes "cached s" and "cache s E = None \<or> cache s E = Some PNone"
  shows "getCached srv E s = fetch_and_store srv E s"
proof -
  from assms(2) have "\<not> present s E" by (auto simp: present_def)
  with assms(1) show ?thesis by (rule getCached_miss)
qed

text \<open>With caching off nothing is ever stored, so a key in the map means caching is on.\<close>

lemma uncached_exec: "\<not> cached s \<Longrightarrow> cache (snd (exec srv c s)) = cache s"
proof (cases c)
  case (GetCached E)
  assume "\<not> cached s"
  with GetCached show ?thesis by (simp add: getCached_uncached)
next
  case (Get E)
  then show ?thesis by simp
next
  case (Post E d)
  assume "\<not> cached s"
  with Post post_cache_cases [of srv E d s] show ?thesis by auto
next
  case (Put E d)
  assume "\<not> cached s"
  with Put put_cache_cases [of srv E d s] show ?thesis by auto
next
  case (Delete E)
  assume "\<not> cached s"
  with Delete delete_cache_cases [of srv E s] show ?thesis by auto
qed

lemma uncached_run: "\<not> cached s \<Longrightarrow> cache (run srv cs s) = cache s"
proof (induction cs arbitrary: s)
  case Nil
  then show ?case by simp
next
  case (Cons c cs)
  have "cached (snd (exec srv c s)) = cached s" by (cases c) simp_all
  with Cons show ?case by (simp add: uncached_exec)
qed

text \<open>
  C10: the cache map under every operation. Keys are added only by \<open>getCached\<close>: get leaves
  the map alone, and post, put and delete keep its key set whatever their outcome. A
  successful post, put or delete against a key that is there overwrites its value with
  \<open>None\<close> and the key stays; against an endpoint that was never fetched it leaves the map
  identical. \<open>getCached\<close> treats a key mapped to \<open>None\<close> like a missing key: it calls get
  and overwrites the entry.
\<close>

theorem cache_keys:
  "cache (snd (get srv E s)) = cache s \<and>
   dom (cache (snd (post srv E d s))) = dom (cache s) \<and>
   dom (cache (snd (put srv E d s))) = dom (cache s) \<and>
   dom (cache (snd (delete srv E s))) = dom (cache s) \<and>
   dom (cache (snd (getCached srv E s))) \<subseteq> insert E (dom (cache s)) \<and>
   (cached s \<and> E \<in> dom (cache s) \<and> fst (post srv E d s) = Inr r \<longrightarrow>
      cache (snd (post srv E d s)) = (cache s)(E \<mapsto> PNone)) \<and>
   (cached s \<and> E \<in> dom (cache s) \<and> fst (put srv E d s) = Inr r \<longrightarrow>
      cache (snd (put srv E d s)) = (cache s)(E \<mapsto> PNone)) \<and>
   (cached s \<and> E \<in> dom (cache s) \<and> fst (delete srv E s) = Inr r \<longrightarrow>
      cache (snd (delete srv E s)) = (cache s)(E \<mapsto> PNone)) \<and>
   (E \<notin> dom (cache s) \<longrightarrow>
      cache (snd (post srv E d s)) = cache s \<and>
      cache (snd (put srv E d s)) = cache s \<and>
      cache (snd (delete srv E s)) = cache s) \<and>
   (cached s \<and> (cache s E = None \<or> cache s E = Some PNone) \<longrightarrow>
      getCached srv E s = fetch_and_store srv E s)"
  by (simp add: post_dom put_dom delete_dom getCached_dom post_ok_cache put_ok_cache
      delete_ok_cache post_cache_fresh put_cache_fresh delete_cache_fresh getCached_none_miss)

lemma after_fetch_remote: "remote after_fetch = []"
  by (simp add: getCached_def get_def dispatch_simps store_defs)

theorem cache_keys_witness:
  "cached after_fetch \<and> ''items'' \<in> dom (cache after_fetch) \<and>
   fst (post item_store ''items'' (PDict []) after_fetch) = Inr (PDict []) \<and>
   cache (snd (post item_store ''items'' (PDict []) after_fetch))
     = (cache after_fetch)(''items'' \<mapsto> PNone) \<and>
   fst (put item_store ''items'' (PDict []) after_fetch) = Inr (PDict []) \<and>
   cache (snd (put item_store ''items'' (PDict []) after_fetch))
     = (cache after_fetch)(''items'' \<mapsto> PNone) \<and>
   fst (delete item_store ''items'' after_fetch) = Inr (PBool True) \<and>
   cache (snd (delete item_store ''items'' after_fetch))
     = (cache after_fetch)(''items'' \<mapsto> PNone) \<and>
   ''tags'' \<notin> dom (cache after_fetch) \<and>
   cache (snd (post item_store ''tags'' (PDict []) after_fetch)) = cache after_fetch \<and>
   cached stale \<and> cache stale ''items'' = Some PNone \<and>
   getCached failing ''items'' stale = fetch_and_store failing ''items'' stale"
proof -
  have c: "cached after_fetch" by (rule after_fetch_cached)
  have k: "''items'' \<in> dom (cache after_fetch)" using after_fetch_cache by blast
  have p: "fst (post item_store ''items'' (PDict []) after_fetch) = Inr (PDict [])"
    using after_fetch_cookie after_fetch_remote
    by (simp add: post_def dispatch_simps item_store_def reply_def)
  have u: "fst (put item_store ''items'' (PDict []) after_fetch) = Inr (PDict [])"
    using after_fetch_cookie after_fetch_remote
    by (simp add: put_def dispatch_simps item_store_def reply_def)
  have d: "fst (delete item_store ''items'' after_fetch) = Inr (PBool True)"
    using after_fetch_cookie after_fetch_remote
    by (simp add: delete_def dispatch_simps item_store_def reply_def)
  have n: "''tags'' \<notin> dom (cache after_fetch)"
    by (simp add: getCached_def get_def dispatch_simps store_defs domIff)
  have s: "cached stale" "cache stale ''items'' = Some PNone"
    by (simp_all add: stale_def logged_in_def init_def)
  from c k p u d n s show ?thesis
    using cache_keys [of item_store "''items''" after_fetch "PDict []" "PDict []"]
      cache_keys [of item_store "''items''" after_fetch "PDict []" "PBool True"]
      cache_keys [of item_store "''tags''" after_fetch "PDict []"]
      cache_keys [of failing "''items''" stale]
    by simp
qed


section \<open>Cache hits\<close>

lemma exec_cached [simp]: "cached (snd (exec srv c s)) = cached s"
  by (cases c) simp_all

lemma exec_api [simp]: "api (snd (exec srv c s)) = api s"
  by (cases c) simp_all

lemma run_cached [simp]: "cached (run srv cs s) = cached s"
  by (induction cs arbitrary: s) simp_all

lemma run_api [simp]: "api (run srv cs s) = api s"
  by (induction cs arbitrary: s) simp_all

lemma getCached_cache_other:
  "E' \<noteq> E \<Longrightarrow> cache (snd (getCached srv E s)) E' = cache s E'"
  using getCached_cache_cases [of srv E s] by auto

lemma exec_keeps_entry:
  assumes "cached s" and "cache s E = Some v" and "v \<noteq> PNone" and "\<not> mutates E c"
  shows "cache (snd (exec srv c s)) E = Some v"
proof (cases c)
  case (GetCached E')
  show ?thesis
  proof (cases "E' = E")
    case True
    with assms GetCached show ?thesis by (simp add: getCached_hit)
  next
    case False
    with assms GetCached show ?thesis by (simp add: getCached_cache_other)
  qed
next
  case (Get E')
  with assms show ?thesis by simp
next
  case (Post E' d)
  with assms show ?thesis by (simp add: post_cache_other)
next
  case (Put E' d)
  with assms show ?thesis by (simp add: put_cache_other)
next
  case (Delete E')
  with assms show ?thesis by (simp add: delete_cache_other)
qed

lemma run_keeps_entry:
  "cached s \<Longrightarrow> cache s E = Some v \<Longrightarrow> v \<noteq> PNone \<Longrightarrow> \<forall>c\<in>set cs. \<not> mutates E c \<Longrightarrow>
   cache (run srv cs s) E = Some v"
proof (induction cs arbitrary: s)
  case Nil
  then show ?case by simp
next
  case (Cons c cs)
  from Cons.prems have "cache (snd (exec srv c s)) E = Some v"
    by (intro exec_keeps_entry) simp_all
  with Cons.prems show ?case
    by (simp add: Cons.IH)
qed

lemma getCached_ok_entry:
  assumes "cached s" and "getCached srv E s = (Inr v, s1)"
  shows "cache s1 E = Some v"
proof (cases "present s E")
  case True
  with assms(1) obtain w where w: "cache s E = Some w" "w \<noteq> PNone"
    by (auto simp: present_def split: option.splits)
  with assms show ?thesis by (simp add: getCached_hit)
next
  case False
  with assms have "fetch_and_store srv E s = (Inr v, s1)" by (simp add: getCached_miss)
  then show ?thesis
    by (auto simp: fetch_and_store_def split: prod.splits sum.splits)
qed

text \<open>
  C2, as the code has it: with caching on, a stored value other than \<open>None\<close> (a list,
  empty or not, or a mapping) is returned as it is and the connector is left exactly as it
  was, so nothing is sent; on a miss \<open>getCached\<close> calls get, stores the result under the key and returns it;
  and after a \<open>getCached\<close> that returned such a value, any calls that are not a post, put
  or delete against that endpoint leave the next \<open>getCached\<close> a hit with the same value.
\<close>

theorem cache_hit:
  "(cached s \<and> cache s E = Some v \<and> v \<noteq> PNone \<longrightarrow> getCached srv E s = (Inr v, s)) \<and>
   (cached s \<and> \<not> present s E \<longrightarrow> getCached srv E s = fetch_and_store srv E s) \<and>
   (cached s \<and> getCached srv E s = (Inr v, s1) \<and> v \<noteq> PNone \<and> (\<forall>c\<in>set cs. \<not> mutates E c) \<longrightarrow>
      getCached srv E (run srv cs s1) = (Inr v, run srv cs s1))"
proof -
  have "getCached srv E (run srv cs s1) = (Inr v, run srv cs s1)"
    if h: "cached s \<and> getCached srv E s = (Inr v, s1) \<and> v \<noteq> PNone \<and> (\<forall>c\<in>set cs. \<not> mutates E c)"
  proof -
    from h have e: "cache s1 E = Some v" by (auto intro: getCached_ok_entry)
    from h have c: "cached s1" using getCached_cached [of srv E s] by simp
    from c e h have "cache (run srv cs s1) E = Some v" by (intro run_keeps_entry) simp_all
    with c h show ?thesis by (intro getCached_hit) simp_all
  qed
  then show ?thesis by (simp add: getCached_hit getCached_miss)
qed


lemma first_fetch:
  "getCached item_store ''items'' (logged_in True []) = (Inr (PList []), after_fetch)"
proof -
  have "fst (getCached item_store ''items'' (logged_in True [])) = Inr (PList [])"
    by (simp add: getCached_def get_def dispatch_simps store_defs)
  then show ?thesis by (simp add: after_fetch_def prod_eq_iff)
qed

text \<open>
  The scenario of the specification, on the item service: the first fetch of \<open>items\<close>
  returns the empty list over the wire, the second returns it from the cache, and so does
  a third after a get and a post against other endpoints.
\<close>

theorem cache_hit_witness:
  "cached (logged_in True ([] :: pyval list)) \<and>
   getCached item_store ''items'' (logged_in True []) = (Inr (PList []), after_fetch) \<and>
   length (exchanges after_fetch) = 1 \<and>
   getCached item_store ''items'' after_fetch = (Inr (PList []), after_fetch) \<and>
   getCached item_store ''items''
       (run item_store [Get ''items/1'', Post ''tags'' (PDict [])] after_fetch)
     = (Inr (PList []), run item_store [Get ''items/1'', Post ''tags'' (PDict [])] after_fetch)"
proof -
  have c: "cached (logged_in True ([] :: pyval list))"
    by (simp add: logged_in_def init_def)
  have n: "length (exchanges after_fetch) = 1"
    by (simp add: getCached_def get_def dispatch_simps store_defs)
  have m: "\<forall>c\<in>set [Get ''items/1'', Post ''tags'' (PDict [])]. \<not> mutates ''items'' c"
    by simp
  from c n m first_fetch after_fetch_cached after_fetch_cache show ?thesis
    using cache_hit [of after_fetch "''items''" "PList []" item_store]
      cache_hit [of "logged_in True []" "''items''" "PList []" item_store after_fetch
        "[Get ''items/1'', Post ''tags'' (PDict [])]"]
    by simp
qed

text \<open>
  That every successful \<open>getCached\<close> is followed by a hit does not hold when the body is
  the JSON \<open>null\<close>: \<open>req.json()\<close> is \<open>None\<close>, the call succeeds and stores \<open>None\<close>, and the
  next \<open>getCached\<close> of the same endpoint, with nothing in between, sends a second GET.
\<close>

theorem null_body_fetched_again:
  "cached (logged_in True ()) \<and>
   getCached null_service ''items'' (logged_in True ()) = (Inr PNone, after_null) \<and>
   cache after_null ''items'' = Some PNone \<and>
   length (exchanges after_null) = 1 \<and>
   length (exchanges (snd (getCached null_service ''items'' after_null))) = 2 \<and>
   getCached null_service ''items'' after_null \<noteq> (Inr PNone, after_null)"
proof -
  have c: "cached (logged_in True ())"
    by (simp add: logged_in_def init_def)
  have "fst (getCached null_service ''items'' (logged_in True ())) = Inr PNone"
    by (simp add: getCached_def get_def dispatch_simps null_service_def canned_def reply_def
        logged_in_def init_def)
  then have f: "getCached null_service ''items'' (logged_in True ()) = (Inr PNone, after_null)"
    by (simp add: after_null_def prod_eq_iff)
  have k: "cache after_null ''items'' = Some PNone"
    and l1: "length (exchanges after_null) = 1"
    and l2: "length (exchanges (snd (getCached null_service ''items'' after_null))) = 2"
    by (simp_all add: after_null_def getCached_def get_def dispatch_simps null_service_def
        canned_def reply_def logged_in_def init_def)
  have "getCached null_service ''items'' after_null \<noteq> (Inr PNone, after_null)"
  proof
    assume "getCached null_service ''items'' after_null = (Inr PNone, after_null)"
    then have "snd (getCached null_service ''items'' after_null) = after_null" by simp
    with l1 l2 show False by simp
  qed
  with c f k l1 l2 show ?thesis by blast
qed

section \<open>The history invariant of the cache\<close>

lemma present_cong:
  "cache s' E = cache s E \<Longrightarrow> cached s' = cached s \<Longrightarrow> present s' E = present s E"
  by (simp add: present_def)

lemma fetched_cons_keep:
  "\<not> mutation_ok base E x \<Longrightarrow> fetched_since_mutation base E xs \<Longrightarrow>
   fetched_since_mutation base E (x # xs)"
  by simp

lemma not_mutation_GET: "verb (fst x) = GET \<Longrightarrow> \<not> mutation_ok base E x"
  by (simp add: mutation_ok_def)

lemma not_mutation_status: "400 \<le> status_code (snd x) \<Longrightarrow> \<not> mutation_ok base E x"
  by (simp add: mutation_ok_def)

lemma not_mutation_url: "url (fst x) = base @ ''/'' @ E' \<Longrightarrow> E \<noteq> E' \<Longrightarrow> \<not> mutation_ok base E x"
  by (simp add: mutation_ok_def)

text \<open>What get leaves on the wire.\<close>

lemma get_exchanges_cases:
  "exchanges (snd (get srv E s)) = exchanges s \<or>
   (\<exists>x. exchanges (snd (get srv E s)) = x # exchanges s \<and> verb (fst x) = GET)"
proof (cases "cookies s ''CSRF-TOKEN''")
  case None
  then show ?thesis by (simp add: no_token_get)
next
  case (Some t)
  from get_sent [OF Some, of srv E] show ?thesis by auto
qed

lemma get_ok_exchange:
  assumes "fst (get srv E s) = Inr v"
  shows "\<exists>x. exchanges (snd (get srv E s)) = x # exchanges s \<and> get_ok (api s) E x"
proof (cases "cookies s ''CSRF-TOKEN''")
  case None
  with assms show ?thesis by (simp add: no_token_get)
next
  case (Some t)
  from get_sent [OF Some, of srv E] obtain rq rsp where
    x: "exchanges (snd (get srv E s)) = (rq, rsp) # exchanges s"
      "verb rq = GET" "url rq = api s @ ''/'' @ E"
    and r: "fst (get srv E s) =
      (if 400 \<le> status_code rsp
       then Inl (Exception ''Request unsuccessfully: %s'' (Int_arg (status_code rsp)))
       else case json rsp of None \<Rightarrow> Inl JSONDecodeError | Some v \<Rightarrow> Inr v)"
    by blast
  from r assms have "status_code rsp < 400 \<and> json rsp \<noteq> None"
    by (auto split: if_splits option.splits)
  with x show ?thesis by (simp add: get_ok_def)
qed

lemma cache_inv_get:
  assumes "cache_inv s"
  shows "cache_inv (snd (get srv E' s))"
  unfolding cache_inv_def
proof (intro allI impI)
  fix E
  assume "present (snd (get srv E' s)) E"
  then have "present s E" by (simp add: present_def)
  with assms have f: "fetched_since_mutation (api s) E (exchanges s)"
    by (simp add: cache_inv_def)
  from get_exchanges_cases [of srv E' s]
  show "fetched_since_mutation (api (snd (get srv E' s))) E (exchanges (snd (get srv E' s)))"
  proof
    assume "exchanges (snd (get srv E' s)) = exchanges s"
    with f show ?thesis by simp
  next
    assume "\<exists>x. exchanges (snd (get srv E' s)) = x # exchanges s \<and> verb (fst x) = GET"
    then obtain x where "exchanges (snd (get srv E' s)) = x # exchanges s" "verb (fst x) = GET"
      by blast
    with f show ?thesis by (simp add: not_mutation_GET)
  qed
qed

lemma cache_inv_fetch_and_store:
  assumes "cache_inv s"
  shows "cache_inv (snd (fetch_and_store srv E' s))"
proof (cases "get srv E' s")
  case (Pair r s1)
  then have s1: "s1 = snd (get srv E' s)" by simp
  have inv1: "cache_inv s1" unfolding s1 using assms by (rule cache_inv_get)
  show ?thesis
  proof (cases r)
    case (Inl e)
    with Pair inv1 show ?thesis by (simp add: fetch_and_store_def)
  next
    case (Inr v)
    with Pair have "fst (get srv E' s) = Inr v" by simp
    then obtain x where x: "exchanges s1 = x # exchanges s" "get_ok (api s) E' x"
      unfolding s1 using get_ok_exchange by blast
    have api1: "api s1 = api s" by (simp add: s1)
    have "cache_inv (s1\<lparr>cache := (cache s1)(E' \<mapsto> v)\<rparr>)"
      unfolding cache_inv_def
    proof (intro allI impI)
      fix E
      assume p: "present (s1\<lparr>cache := (cache s1)(E' \<mapsto> v)\<rparr>) E"
      show "fetched_since_mutation (api (s1\<lparr>cache := (cache s1)(E' \<mapsto> v)\<rparr>)) E
              (exchanges (s1\<lparr>cache := (cache s1)(E' \<mapsto> v)\<rparr>))"
      proof (cases "E = E'")
        case True
        with x api1 show ?thesis by simp
      next
        case False
        with p have "present s1 E" by (simp add: present_def)
        with inv1 show ?thesis by (simp add: cache_inv_def)
      qed
    qed
    with Pair Inr show ?thesis by (simp add: fetch_and_store_def)
  qed
qed

lemma cache_inv_getCached:
  assumes "cache_inv s"
  shows "cache_inv (snd (getCached srv E' s))"
proof (cases "cached s")
  case False
  with assms show ?thesis by (simp add: getCached_uncached cache_inv_get)
next
  case on: True
  show ?thesis
  proof (cases "present s E'")
    case True
    with on obtain v where "cache s E' = Some v" "v \<noteq> PNone"
      by (auto simp: present_def split: option.splits)
    with on assms show ?thesis by (simp add: getCached_hit)
  next
    case False
    with on assms show ?thesis by (simp add: getCached_miss cache_inv_fetch_and_store)
  qed
qed

section \<open>Mutations and the invariant\<close>

text \<open>A status below 400 on a mutating call leaves no servable entry under its key.\<close>

lemma post_ok_invalidates:
  assumes "cookies s ''CSRF-TOKEN'' = Some t"
    and "status_code (received (snd (post srv E d s))) < 400"
  shows "\<not> present (snd (post srv E d s)) E"
  using assms
  by (auto simp: post_def dispatch_simps received_def present_def
      split: option.splits prod.splits)

lemma put_ok_invalidates:
  assumes "cookies s ''CSRF-TOKEN'' = Some t"
    and "status_code (received (snd (put srv E d s))) < 400"
  shows "\<not> present (snd (put srv E d s)) E"
  using assms
  by (auto simp: put_def dispatch_simps received_def present_def
      split: option.splits prod.splits)

lemma delete_ok_invalidates:
  assumes "cookies s ''CSRF-TOKEN'' = Some t"
    and "status_code (received (snd (delete srv E s))) < 400"
  shows "\<not> present (snd (delete srv E s)) E"
  using assms
  by (auto simp: delete_def dispatch_simps received_def present_def
      split: option.splits prod.splits)

text \<open>
  One step of the invariant for a call that behaves as a mutation against \<open>E'\<close> does:
  nothing on the wire and the cache as it was, or one exchange that is not a GET, with the
  cache as it was on a status of 400 or more and the key unservable below 400, and every
  other key untouched.
\<close>

lemma cache_inv_mutation:
  assumes inv: "cache_inv s"
    and same: "api s' = api s" "cached s' = cached s"
    and other: "\<And>E. E \<noteq> E' \<Longrightarrow> cache s' E = cache s E"
    and step: "(exchanges s' = exchanges s \<and> cache s' = cache s) \<or>
       (\<exists>x. exchanges s' = x # exchanges s \<and> verb (fst x) \<noteq> GET \<and>
            url (fst x) = api s @ ''/'' @ E' \<and>
            (if 400 \<le> status_code (snd x) then cache s' = cache s else \<not> present s' E'))"
  shows "cache_inv s'"
  unfolding cache_inv_def
proof (intro allI impI)
  fix E
  assume p: "present s' E"
  from step show "fetched_since_mutation (api s') E (exchanges s')"
  proof
    assume q: "exchanges s' = exchanges s \<and> cache s' = cache s"
    with p same have "present s E" by (simp add: present_def)
    with inv q same show ?thesis by (simp add: cache_inv_def)
  next
    assume "\<exists>x. exchanges s' = x # exchanges s \<and> verb (fst x) \<noteq> GET \<and>
            url (fst x) = api s @ ''/'' @ E' \<and>
            (if 400 \<le> status_code (snd x) then cache s' = cache s else \<not> present s' E')"
    then obtain x where x: "exchanges s' = x # exchanges s" "verb (fst x) \<noteq> GET"
        "url (fst x) = api s @ ''/'' @ E'"
      and c: "if 400 \<le> status_code (snd x) then cache s' = cache s else \<not> present s' E'"
      by blast
    have ng: "\<not> get_ok (api s) E x" using x(2) by (simp add: get_ok_def)
    show ?thesis
    proof (cases "400 \<le> status_code (snd x)")
      case True
      with c p same have "present s E" by (simp add: present_def)
      with inv have "fetched_since_mutation (api s) E (exchanges s)"
        by (simp add: cache_inv_def)
      with True x same show ?thesis by (simp add: not_mutation_status)
    next
      case False
      with c p have ne: "E \<noteq> E'" by auto
      with other p same have "present s E" by (simp add: present_def)
      with inv have "fetched_since_mutation (api s) E (exchanges s)"
        by (simp add: cache_inv_def)
      with ne x same show ?thesis by (simp add: not_mutation_url)
    qed
  qed
qed

lemma cache_inv_post:
  assumes "cache_inv s"
  shows "cache_inv (snd (post srv E' d s))"
proof (rule cache_inv_mutation [OF assms, where E' = E'])
  show "(exchanges (snd (post srv E' d s)) = exchanges s \<and> cache (snd (post srv E' d s)) = cache s) \<or>
       (\<exists>x. exchanges (snd (post srv E' d s)) = x # exchanges s \<and> verb (fst x) \<noteq> GET \<and>
            url (fst x) = api s @ ''/'' @ E' \<and>
            (if 400 \<le> status_code (snd x) then cache (snd (post srv E' d s)) = cache s
             else \<not> present (snd (post srv E' d s)) E'))"
  proof (cases "cookies s ''CSRF-TOKEN''")
    case None
    then show ?thesis by (simp add: no_token_post)
  next
    case (Some t)
    let ?s' = "snd (post srv E' d s)"
    from post_sent [OF Some, of srv E' d] obtain rq rsp where
      x: "exchanges ?s' = (rq, rsp) # exchanges s" "verb rq = POST" "url rq = api s @ ''/'' @ E'"
      and r: "fst (post srv E' d s) =
        (if 400 \<le> status_code rsp
         then Inl (Exception ''Request unsuccessfully: %s'' (Bytes_arg (content rsp)))
         else case json rsp of None \<Rightarrow> Inl JSONDecodeError | Some v \<Rightarrow> Inr v)"
      by blast
    from x(1) have rc: "received ?s' = rsp" by (simp add: received_def)
    have "if 400 \<le> status_code rsp then cache ?s' = cache s else \<not> present ?s' E'"
    proof (cases "400 \<le> status_code rsp")
      case True
      with r have "raises_RequestError (fst (post srv E' d s))" by simp
      with True show ?thesis by (simp add: post_error_cache)
    next
      case False
      with rc post_ok_invalidates [OF Some, of srv E' d] show ?thesis by simp
    qed
    with x show ?thesis by simp
  qed
qed (simp_all add: post_cache_other)

lemma cache_inv_put:
  assumes "cache_inv s"
  shows "cache_inv (snd (put srv E' d s))"
proof (rule cache_inv_mutation [OF assms, where E' = E'])
  show "(exchanges (snd (put srv E' d s)) = exchanges s \<and> cache (snd (put srv E' d s)) = cache s) \<or>
       (\<exists>x. exchanges (snd (put srv E' d s)) = x # exchanges s \<and> verb (fst x) \<noteq> GET \<and>
            url (fst x) = api s @ ''/'' @ E' \<and>
            (if 400 \<le> status_code (snd x) then cache (snd (put srv E' d s)) = cache s
             else \<not> present (snd (put srv E' d s)) E'))"
  proof (cases "cookies s ''CSRF-TOKEN''")
    case None
    then show ?thesis by (simp add: no_token_put)
  next
    case (Some t)
    let ?s' = "snd (put srv E' d s)"
    from put_sent [OF Some, of srv E' d] obtain rq rsp where
      x: "exchanges ?s' = (rq, rsp) # exchanges s" "verb rq = PUT" "url rq = api s @ ''/'' @ E'"
      and r: "fst (put srv E' d s) =
        (if 400 \<le> status_code rsp
         then Inl (Exception ''Request unsuccessfully: %s'' (Int_arg (status_code rsp)))
         else case json rsp of None \<Rightarrow> Inl JSONDecodeError | Some v \<Rightarrow> Inr v)"
      by blast
    from x(1) have rc: "received ?s' = rsp" by (simp add: received_def)
    have "if 400 \<le> status_code rsp then cache ?s' = cache s else \<not> present ?s' E'"
    proof (cases "400 \<le> status_code rsp")
      case True
      with r have "raises_RequestError (fst (put srv E' d s))" by simp
      with True show ?thesis by (simp add: put_error_cache)
    next
      case False
      with rc put_ok_invalidates [OF Some, of srv E' d] show ?thesis by simp
    qed
    with x show ?thesis by simp
  qed
qed (simp_all add: put_cache_other)

lemma cache_inv_delete:
  assumes "cache_inv s"
  shows "cache_inv (snd (delete srv E' s))"
proof (rule cache_inv_mutation [OF assms, where E' = E'])
  show "(exchanges (snd (delete srv E' s)) = exchanges s \<and> cache (snd (delete srv E' s)) = cache s) \<or>
       (\<exists>x. exchanges (snd (delete srv E' s)) = x # exchanges s \<and> verb (fst x) \<noteq> GET \<and>
            url (fst x) = api s @ ''/'' @ E' \<and>
            (if 400 \<le> status_code (snd x) then cache (snd (delete srv E' s)) = cache s
             else \<not> present (snd (delete srv E' s)) E'))"
  proof (cases "cookies s ''CSRF-TOKEN''")
    case None
    then show ?thesis by (simp add: no_token_delete)
  next
    case (Some t)
    let ?s' = "snd (delete srv E' s)"
    from delete_sent [OF Some, of srv E'] obtain rq rsp where
      x: "exchanges ?s' = (rq, rsp) # exchanges s" "verb rq = DELETE" "url rq = api s @ ''/'' @ E'"
      and r: "fst (delete srv E' s) =
        (if 400 \<le> status_code rsp
         then Inl (Exception ''Request unsuccessfully: %s'' (Int_arg (status_code rsp)))
         else Inr (PBool True))"
      by blast
    from x(1) have rc: "received ?s' = rsp" by (simp add: received_def)
    have "if 400 \<le> status_code rsp then cache ?s' = cache s else \<not> present ?s' E'"
    proof (cases "400 \<le> status_code rsp")
      case True
      with r have "raises_RequestError (fst (delete srv E' s))" by simp
      with True show ?thesis by (simp add: delete_error_cache)
    next
      case False
      with rc delete_ok_invalidates [OF Some, of srv E'] show ?thesis by simp
    qed
    with x show ?thesis by simp
  qed
qed (simp_all add: delete_cache_other)

lemma cache_inv_exec: "cache_inv s \<Longrightarrow> cache_inv (snd (exec srv c s))"
  by (cases c)
    (simp_all add: cache_inv_getCached cache_inv_get cache_inv_post cache_inv_put cache_inv_delete)

lemma cache_inv_run: "cache_inv s \<Longrightarrow> cache_inv (run srv cs s)"
  by (induction cs arbitrary: s) (simp_all add: cache_inv_exec)

lemma cache_inv_empty: "cache s = Map.empty \<Longrightarrow> cache_inv s"
  by (simp add: cache_inv_def present_def)

section \<open>Invalidation by a successful mutation\<close>

lemma post_keeps_token:
  "cookies s ''CSRF-TOKEN'' = Some t \<Longrightarrow> cookies (snd (post srv E d s)) ''CSRF-TOKEN'' \<noteq> None"
  by (auto simp: post_def dispatch_simps map_add_def split: option.splits prod.splits)

lemma put_keeps_token:
  "cookies s ''CSRF-TOKEN'' = Some t \<Longrightarrow> cookies (snd (put srv E d s)) ''CSRF-TOKEN'' \<noteq> None"
  by (auto simp: put_def dispatch_simps map_add_def split: option.splits prod.splits)

lemma delete_keeps_token:
  "cookies s ''CSRF-TOKEN'' = Some t \<Longrightarrow> cookies (snd (delete srv E s)) ''CSRF-TOKEN'' \<noteq> None"
  by (auto simp: delete_def dispatch_simps map_add_def split: option.splits prod.splits)

lemma post_ok_after:
  assumes "fst (post srv E d s) = Inr r"
  shows "\<not> present (snd (post srv E d s)) E \<and> cookies (snd (post srv E d s)) ''CSRF-TOKEN'' \<noteq> None"
proof (cases "cookies s ''CSRF-TOKEN''")
  case None
  with assms show ?thesis by (simp add: no_token_post)
next
  case (Some t)
  from assms have "status_code (received (snd (post srv E d s))) < 400"
    by (subst (asm) post_received(3) [OF Some]) (simp split: if_splits)
  with Some show ?thesis by (simp add: post_ok_invalidates post_keeps_token)
qed

lemma put_ok_after:
  assumes "fst (put srv E d s) = Inr r"
  shows "\<not> present (snd (put srv E d s)) E \<and> cookies (snd (put srv E d s)) ''CSRF-TOKEN'' \<noteq> None"
proof (cases "cookies s ''CSRF-TOKEN''")
  case None
  with assms show ?thesis by (simp add: no_token_put)
next
  case (Some t)
  from assms have "status_code (received (snd (put srv E d s))) < 400"
    by (subst (asm) put_received(3) [OF Some]) (simp split: if_splits)
  with Some show ?thesis by (simp add: put_ok_invalidates put_keeps_token)
qed

lemma delete_ok_after:
  assumes "fst (delete srv E s) = Inr r"
  shows "\<not> present (snd (delete srv E s)) E \<and> cookies (snd (delete srv E s)) ''CSRF-TOKEN'' \<noteq> None"
proof (cases "cookies s ''CSRF-TOKEN''")
  case None
  with assms show ?thesis by (simp add: no_token_delete)
next
  case (Some t)
  from assms have "status_code (received (snd (delete srv E s))) < 400"
    by (subst (asm) delete_received(3) [OF Some]) (simp split: if_splits)
  with Some show ?thesis by (simp add: delete_ok_invalidates delete_keeps_token)
qed

lemma mutation_ok_after:
  assumes "mutates E c" and "fst (exec srv c s) = Inr r"
  shows "\<not> present (snd (exec srv c s)) E \<and> cookies (snd (exec srv c s)) ''CSRF-TOKEN'' \<noteq> None"
  using assms by (cases c) (simp_all add: post_ok_after put_ok_after delete_ok_after)

lemma fetch_and_store_exchanges:
  "exchanges (snd (fetch_and_store srv E s)) = exchanges (snd (get srv E s))"
  by (simp add: fetch_and_store_def split: prod.split sum.split)

lemma miss_sends_get:
  assumes "cached s" and "\<not> present s E" and "cookies s ''CSRF-TOKEN'' \<noteq> None"
  shows "\<exists>rq rsp. exchanges (snd (getCached srv E s)) = (rq, rsp) # exchanges s \<and>
           verb rq = GET \<and> url rq = api s @ ''/'' @ E"
proof -
  from assms(3) obtain t where t: "cookies s ''CSRF-TOKEN'' = Some t" by blast
  from assms(1,2) have "exchanges (snd (getCached srv E s)) = exchanges (snd (get srv E s))"
    by (simp add: getCached_miss fetch_and_store_exchanges)
  with get_sent [OF t, of srv E] show ?thesis by auto
qed

text \<open>
  C1: with caching on, a successful post, put or delete against the endpoint string \<open>E\<close>
  leaves no servable entry for \<open>E\<close>, so the next \<open>getCached\<close> of \<open>E\<close> takes the miss path
  and sends a new GET for \<open>E\<close>. Put as an invariant over any sequence of calls on a fresh
  connector: an entry for \<open>E\<close> is present only if a GET against \<open>E\<close> completed successfully
  and no successful post, put or delete against \<open>E\<close> came after it.
\<close>

theorem mutation_invalidates:
  "(cached s \<and> mutates E c \<and> fst (exec srv c s) = Inr r \<longrightarrow>
      \<not> present (snd (exec srv c s)) E \<and>
      getCached srv E (snd (exec srv c s)) = fetch_and_store srv E (snd (exec srv c s)) \<and>
      (\<exists>rq rsp. exchanges (snd (getCached srv E (snd (exec srv c s))))
                  = (rq, rsp) # exchanges (snd (exec srv c s)) \<and>
                verb rq = GET \<and> url rq = api s @ ''/'' @ E)) \<and>
   (cache s = Map.empty \<and> exchanges s = [] \<and> present (run srv cs s) E \<longrightarrow>
      fetched_since_mutation (api s) E (exchanges (run srv cs s)))"
proof (intro conjI impI)
  assume h: "cached s \<and> mutates E c \<and> fst (exec srv c s) = Inr r"
  let ?s' = "snd (exec srv c s)"
  from h have a: "\<not> present ?s' E" "cookies ?s' ''CSRF-TOKEN'' \<noteq> None"
    using mutation_ok_after by blast+
  from h have c: "cached ?s'" by simp
  from a(1) show "\<not> present ?s' E" .
  from c a(1) show "getCached srv E ?s' = fetch_and_store srv E ?s'" by (rule getCached_miss)
  from miss_sends_get [OF c a, of srv]
  show "\<exists>rq rsp. exchanges (snd (getCached srv E ?s')) = (rq, rsp) # exchanges ?s' \<and>
                verb rq = GET \<and> url rq = api s @ ''/'' @ E"
    by simp
next
  assume h: "cache s = Map.empty \<and> exchanges s = [] \<and> present (run srv cs s) E"
  then have "cache_inv (run srv cs s)" by (intro cache_inv_run cache_inv_empty) simp
  with h show "fetched_since_mutation (api s) E (exchanges (run srv cs s))"
    by (simp add: cache_inv_def)
qed

lemma after_post_facts:
  "fst (exec item_store (Post ''items'' (PDict [])) after_fetch) = Inr (PDict [])"
  "fst (getCached item_store ''items'' after_post) = Inr (PList [PDict []])"
  "length (exchanges after_post) = 2"
  "length (exchanges (snd (getCached item_store ''items'' after_post))) = 3"
  by (simp_all add: after_post_def getCached_def get_def post_def dispatch_simps store_defs)

text \<open>
  The scenario continued: after the cached fetch a post to \<open>items\<close> succeeds, and the next
  fetch goes over the wire (the third exchange) and returns the updated list.
\<close>

theorem mutation_invalidates_witness:
  "cached after_fetch \<and> mutates ''items'' (Post ''items'' (PDict [])) \<and>
   fst (exec item_store (Post ''items'' (PDict [])) after_fetch) = Inr (PDict []) \<and>
   \<not> present after_post ''items'' \<and>
   getCached item_store ''items'' after_post = fetch_and_store item_store ''items'' after_post \<and>
   fst (getCached item_store ''items'' after_post) = Inr (PList [PDict []]) \<and>
   length (exchanges after_post) = 2 \<and>
   length (exchanges (snd (getCached item_store ''items'' after_post))) = 3 \<and>
   cache (logged_in True ([] :: pyval list)) = Map.empty \<and>
   exchanges (logged_in True ([] :: pyval list)) = [] \<and>
   present (run item_store [GetCached ''items''] (logged_in True [])) ''items'' \<and>
   fetched_since_mutation ''http://server/api'' ''items''
     (exchanges (run item_store [GetCached ''items''] (logged_in True [])))"
proof -
  have e: "cache (logged_in True ([] :: pyval list)) = Map.empty"
    "exchanges (logged_in True ([] :: pyval list)) = []"
    "api (logged_in True ([] :: pyval list)) = ''http://server/api''"
    by (simp_all add: logged_in_def init_def)
  have p: "present (run item_store [GetCached ''items''] (logged_in True [])) ''items''"
    using after_fetch_cache after_fetch_cached by (simp add: first_fetch present_def)
  from e p after_fetch_cached after_post_facts show ?thesis
    using mutation_invalidates [of after_fetch "''items''" "Post ''items'' (PDict [])" item_store
        "PDict []" "[]"]
      mutation_invalidates [of "logged_in True []" "''items''" "Post ''items'' (PDict [])"
        item_store "PDict []" "[GetCached ''items'']"]
    by (simp add: after_post_def)
qed

section \<open>Single-item operations without an identifier\<close>

lemmas item_get_defs =
  getCollectionCategory_def
  getCollectionInstance_def
  getTagCategory_def
  getTagInstance_def
  getRequirementCategory_def
  getRequirementSkeleton_def
  getOptColumnType_def
  getOptColumn_def
  getOptColumnContent_def
  getProjectType_def
  getStatusColumn_def
  getAlternativeInstance_def

lemmas item_delete_defs =
  deleteCollectionCategory_def
  deleteCollectionInstance_def
  deleteTagCategory_def
  deleteTagInstance_def
  deleteRequirementCategory_def
  deleteRequirementSkeleton_def
  deleteOptColumnType_def
  deleteOptColumn_def
  deleteOptColumnContent_def
  deleteProjectType_def

lemmas item_update_defs =
  updateCollectionCategory_def
  updateCollectionInstance_def
  updateTagCategory_def
  updateTagInstance_def
  updateRequirementCategory_def
  updateRequirementSkeleton_def
  updateOptColumnType_def
  updateOptColumn_def
  updateOptColumnContent_def
  updateProjectType_def

text \<open>
  C6: every single-item get, update and delete, of every entity type, called with no
  identifier raises \<open>ValueError\<close> and returns the connector exactly as it was: nothing has
  been sent, and the cache and the session are untouched.
\<close>

theorem missing_id_fails_fast:
  "getCollectionCategory srv None s =
     (Inl (ValueError
       ''Id can't be none. Use getCollectionCategories for a list of all collection categories''), s) \<and>
   updateCollectionCategory srv None name description showOrder active s
     = (Inl (ValueError ''Id can't be none''), s) \<and>
   deleteCollectionCategory srv None s = (Inl (ValueError ''Id can't be none''), s) \<and>
   getCollectionInstance srv None s = (Inl (ValueError ''Id can't be none''), s) \<and>
   updateCollectionInstance srv None name description collectionCategoryId showOrder active s
     = (Inl (ValueError ''Id can't be none''), s) \<and>
   deleteCollectionInstance srv None s = (Inl (ValueError ''Id can't be none''), s) \<and>
   getTagCategory srv None s = (Inl (ValueError ''Id can't be none''), s) \<and>
   updateTagCategory srv None name description showOrder active s
     = (Inl (ValueError ''Id can't be none''), s) \<and>
   deleteTagCategory srv None s = (Inl (ValueError ''Id can't be none''), s) \<and>
   getTagInstance srv None s = (Inl (ValueError ''Id can't be none''), s) \<and>
   updateTagInstance srv None name description tagCategoryId showOrder active s
     = (Inl (ValueError ''Id can't be none''), s) \<and>
   deleteTagInstance srv None s = (Inl (ValueError ''Id can't be none''), s) \<and>
   getRequirementCategory srv None s = (Inl (ValueError ''Id can't be none''), s) \<and>
   updateRequirementCategory srv None name shortcut description showOrder active s
     = (Inl (ValueError ''Id can't be none''), s) \<and>
   deleteRequirementCategory srv None s = (Inl (ValueError ''Id can't be none''), s) \<and>
   getRequirementSkeleton srv None s = (Inl (ValueError ''Id can't be none''), s) \<and>
   updateRequirementSkeleton srv None shortName description requirementCategory collectionInstances
       tagInstances projectTypes showOrder active universalId s
     = (Inl (ValueError ''Id can't be none''), s) \<and>
   deleteRequirementSkeleton srv None s = (Inl (ValueError ''Id can't be none''), s) \<and>
   getOptColumnType srv None s = (Inl (ValueError ''Id can't be none''), s) \<and>
   updateOptColumnType srv None name description s
     = (Inl (ValueError ''Id can't be none''), s) \<and>
   deleteOptColumnType srv None s = (Inl (ValueError ''Id can't be none''), s) \<and>
   getOptColumn srv None s = (Inl (ValueError ''Id can't be none''), s) \<and>
   updateOptColumn srv None name description optColumnTypeId
       showOrder active isVisibleByDefault s
     = (Inl (ValueError ''Id can't be none''), s) \<and>
   deleteOptColumn srv None s = (Inl (ValueError ''Id can't be none''), s) \<and>
   getOptColumnContent srv None s = (Inl (ValueError ''Id can't be none''), s) \<and>
   updateOptColumnContent srv None content' optColumnId requirementSkeletonId s
     = (Inl (ValueError ''Id can't be none''), s) \<and>
   deleteOptColumnContent srv None s = (Inl (ValueError ''Id can't be none''), s) \<and>
   getProjectType srv None s = (Inl (ValueError ''Id can't be none''), s) \<and>
   updateProjectType srv None name description statusColumnIds
       optColumnIds showOrder active s
     = (Inl (ValueError ''Id can't be none''), s) \<and>
   deleteProjectType srv None s = (Inl (ValueError ''Id can't be none''), s) \<and>
   getStatusColumn srv None s =
     (Inl (ValueError
       ''Id can't be none. Use getCollectionCategories for a list of all collection categories''), s) \<and>
   getAlternativeInstance srv None s =
     (Inl (ValueError
       ''Id can't be none. Use getCollectionCategories for a list of all collection categories''), s)"
  by (simp add: item_get_defs item_update_defs item_delete_defs)

section \<open>Updates: fetch, merge, put\<close>

lemma merge_spec_Nil [simp]: "merge_spec m [] = m"
  by (simp add: merge_spec_def)





text \<open>A parameter left at \<open>None\<close> keeps the fetched field; one that is given replaces it.\<close>

lemma merge_spec_lookup:
  "merge_spec m ps k = (case map_of ps k of Some (Some v) \<Rightarrow> Some v | _ \<Rightarrow> m k)"
  by (simp add: merge_spec_def)
















end
